theory Spec2Isabelle
  imports Main
begin

section \<open>AWS Enumerator: a shallow embedding of \<open>aws_enumerator.py\<close>\<close>

text \<open>
  The program asks the cloud provider for the list of regions, then, region by region,
  lists instances, volumes, snapshots, security groups, buckets and database instances,
  and stores the names it found in a dictionary keyed by region. A window displays one
  region at a time, or the combination of all of them under the label \<open>ALL\<close>.

  The provider is outside the program. It is modelled as a record \<open>aws\<close> of responses:
  what each service call answers. Every call either answers or raises; the program
  catches \<open>ClientError\<close> and nothing else, so an exception is a value of the datatype
  \<open>exn\<close> and a response is a sum \<open>exn + 'a\<close> (\<open>Inl\<close> the exception). Every function
  of the program that calls the provider returns the list of calls it issued, in order,
  together with either the exception that left it or its result.

  Constructing a client (\<open>boto3.client(...)\<close>) sends nothing to the provider and is not
  modelled; only the service calls are.
\<close>

subsection \<open>Exceptions, calls, responses\<close>

datatype exn = ClientError | KeyError | OtherError

type_synonym 'a response = "exn + 'a"

text \<open>The service calls the program issues, with the arguments it passes.\<close>

datatype call =
    DescribeRegions
  | DescribeInstances string
  | DescribeVolumes string
  | DescribeSnapshots string "string list"
  | DescribeSecurityGroups string
  | ListBuckets
  | GetBucketLocation string
  | DescribeDBInstances string

text \<open>The parts of the responses that the program reads.\<close>

record region_entry =
  RegionName :: string

record ec2_instance =
  InstanceId :: string

record reservation =
  Instances :: "ec2_instance list"

record volume =
  VolumeId :: string

record snapshot =
  SnapshotId :: string

record security_group =
  GroupName :: string
  GroupId :: string

record bucket =
  Name :: string

record db_instance =
  DBInstanceIdentifier :: string
  DBInstanceStatus :: string

text \<open>
  The provider. The regional calls are made on a client bound to a region
  (\<open>region_name=region\<close>), so their response is a function of that region. The two
  bucket calls are made on a client without a region, once in the iteration of every
  region: their response is a function of the region being enumerated when the call is
  made, so that one of these calls may fail while the same call in another iteration
  answers. \<open>get_bucket_location\<close> answers \<open>None\<close> where the \<open>LocationConstraint\<close> of
  the bucket is Python's \<open>None\<close>.
\<close>

record aws =
  describe_regions :: "region_entry list response"
  describe_instances :: "string \<Rightarrow> reservation list response"
  describe_volumes :: "string \<Rightarrow> volume list response"
  describe_snapshots :: "string \<Rightarrow> snapshot list response"
  describe_security_groups :: "string \<Rightarrow> security_group list response"
  list_buckets :: "string \<Rightarrow> bucket list response"
  get_bucket_location :: "string \<Rightarrow> string \<Rightarrow> string option response"
  describe_db_instances :: "string \<Rightarrow> db_instance list response"

subsection \<open>Dictionaries\<close>

text \<open>
  Python dictionaries keep their keys in the order of first insertion, and the formatter
  and the combined view iterate in that order: a dictionary is an association list with
  distinct keys. \<open>region_data\<close> is the dictionary of one region, from the name of a
  resource kind to the items found; \<open>inventory\<close> is \<open>resources_by_region\<close>.
\<close>

type_synonym region_data = "(string \<times> string list) list"

type_synonym inventory = "(string \<times> region_data) list"

text \<open>\<open>d[k] = v\<close>: an existing key keeps its place, a new key goes last.\<close>

fun dict_set :: "'k \<Rightarrow> 'v \<Rightarrow> ('k \<times> 'v) list \<Rightarrow> ('k \<times> 'v) list" where
  "dict_set k v [] = [(k, v)]"
| "dict_set k v ((k', v') # rest) =
     (if k' = k then (k, v) # rest else (k', v') # dict_set k v rest)"

text \<open>
  \<open>d[k].append(x)\<close>. The program only appends under the six keys of the dictionary
  literal it has just built, so the key is there (lemma \<open>keys_dict_append\<close> below and
  \<open>new_region_data\<close>); on a dictionary without the key this function changes nothing,
  where Python would raise.
\<close>

fun dict_append :: "string \<Rightarrow> string \<Rightarrow> region_data \<Rightarrow> region_data" where
  "dict_append k x [] = []"
| "dict_append k x ((k', xs) # rest) =
     (if k' = k then (k', xs @ [x]) # rest else (k', xs) # dict_append k x rest)"

text \<open>The dictionary literal of lines 31-38, and again of lines 145-152.\<close>

definition new_region_data :: region_data where
  "new_region_data =
     [(''Instances'', []), (''Volumes'', []), (''Snapshots'', []),
      (''SecurityGroups'', []), (''S3Buckets'', []), (''RDSInstances'', [])]"

definition resource_kinds :: "string list" where
  "resource_kinds =
     [''Instances'', ''Volumes'', ''Snapshots'', ''SecurityGroups'', ''S3Buckets'',
      ''RDSInstances'']"

subsection \<open>\<open>get_all_resources\<close>: one region\<close>

text \<open>
  A \<open>try\<close> body returns the calls it issued, the exception that interrupted it (if
  any) and \<open>region_data\<close> as it stood at that moment: what was appended before an
  exception stays appended.
\<close>

type_synonym tried = "call list \<times> exn option \<times> region_data"

text \<open>Lines 44-46: the nested loop over reservations and their instances.\<close>

fun add_instances :: "ec2_instance list \<Rightarrow> region_data \<Rightarrow> region_data" where
  "add_instances [] d = d"
| "add_instances (i # rest) d = add_instances rest (dict_append ''Instances'' (InstanceId i) d)"

fun add_reservations :: "reservation list \<Rightarrow> region_data \<Rightarrow> region_data" where
  "add_reservations [] d = d"
| "add_reservations (r # rest) d = add_reservations rest (add_instances (Instances r) d)"

text \<open>Lines 50-51, 55-56 and 60-61.\<close>

fun add_volumes :: "volume list \<Rightarrow> region_data \<Rightarrow> region_data" where
  "add_volumes [] d = d"
| "add_volumes (v # rest) d = add_volumes rest (dict_append ''Volumes'' (VolumeId v) d)"

fun add_snapshots :: "snapshot list \<Rightarrow> region_data \<Rightarrow> region_data" where
  "add_snapshots [] d = d"
| "add_snapshots (s # rest) d = add_snapshots rest (dict_append ''Snapshots'' (SnapshotId s) d)"

definition sg_item :: "security_group \<Rightarrow> string" where
  "sg_item sg = GroupName sg @ '' ('' @ GroupId sg @ '')''"

fun add_security_groups :: "security_group list \<Rightarrow> region_data \<Rightarrow> region_data" where
  "add_security_groups [] d = d"
| "add_security_groups (sg # rest) d =
     add_security_groups rest (dict_append ''SecurityGroups'' (sg_item sg) d)"

text \<open>Lines 41-61, the body of the first \<open>try\<close>: four calls on the regional client.\<close>

definition ec2_try :: "aws \<Rightarrow> string \<Rightarrow> region_data \<Rightarrow> tried" where
  "ec2_try w region d =
     (case describe_instances w region of
        Inl e \<Rightarrow> ([DescribeInstances region], Some e, d)
      | Inr instances_data \<Rightarrow>
     let d1 = add_reservations instances_data d in
     (case describe_volumes w region of
        Inl e \<Rightarrow> ([DescribeInstances region, DescribeVolumes region], Some e, d1)
      | Inr volumes_data \<Rightarrow>
     let d2 = add_volumes volumes_data d1 in
     (case describe_snapshots w region of
        Inl e \<Rightarrow>
          ([DescribeInstances region, DescribeVolumes region,
            DescribeSnapshots region [''self'']], Some e, d2)
      | Inr snapshots_data \<Rightarrow>
     let d3 = add_snapshots snapshots_data d2 in
     (case describe_security_groups w region of
        Inl e \<Rightarrow>
          ([DescribeInstances region, DescribeVolumes region,
            DescribeSnapshots region [''self''], DescribeSecurityGroups region], Some e, d3)
      | Inr sgs_data \<Rightarrow>
          ([DescribeInstances region, DescribeVolumes region,
            DescribeSnapshots region [''self''], DescribeSecurityGroups region], None,
           add_security_groups sgs_data d3)))))"

text \<open>
  Lines 71-74: the loop over the listed buckets. The location of every bucket is looked
  up, and the bucket is kept when the location is the region being enumerated, or when
  there is no location and the region is \<open>us-east-1\<close>.
\<close>

fun buckets_loop :: "aws \<Rightarrow> string \<Rightarrow> bucket list \<Rightarrow> region_data \<Rightarrow> tried" where
  "buckets_loop w region [] d = ([], None, d)"
| "buckets_loop w region (b # rest) d =
     (case get_bucket_location w region (Name b) of
        Inl e \<Rightarrow> ([GetBucketLocation (Name b)], Some e, d)
      | Inr bucket_region \<Rightarrow>
          (case buckets_loop w region rest
                  (if bucket_region = Some region \<or>
                      (bucket_region = None \<and> region = ''us-east-1'')
                   then dict_append ''S3Buckets'' (Name b) d else d) of
             (cs, r) \<Rightarrow> (GetBucketLocation (Name b) # cs, r)))"

text \<open>Lines 69-74, the body of the second \<open>try\<close>.\<close>

definition s3_try :: "aws \<Rightarrow> string \<Rightarrow> region_data \<Rightarrow> tried" where
  "s3_try w region d =
     (case list_buckets w region of
        Inl e \<Rightarrow> ([ListBuckets], Some e, d)
      | Inr buckets_data \<Rightarrow>
          (case buckets_loop w region buckets_data d of (cs, r) \<Rightarrow> (ListBuckets # cs, r)))"

text \<open>Lines 80-85, the body of the third \<open>try\<close>.\<close>

definition db_item :: "db_instance \<Rightarrow> string" where
  "db_item db = DBInstanceIdentifier db @ '' (Status: '' @ DBInstanceStatus db @ '')''"

fun add_db_instances :: "db_instance list \<Rightarrow> region_data \<Rightarrow> region_data" where
  "add_db_instances [] d = d"
| "add_db_instances (db # rest) d =
     add_db_instances rest (dict_append ''RDSInstances'' (db_item db) d)"

definition rds_try :: "aws \<Rightarrow> string \<Rightarrow> region_data \<Rightarrow> tried" where
  "rds_try w region d =
     (case describe_db_instances w region of
        Inl e \<Rightarrow> ([DescribeDBInstances region], Some e, d)
      | Inr rds_data \<Rightarrow> ([DescribeDBInstances region], None, add_db_instances rds_data d))"

text \<open>
  \<open>except ClientError: pass\<close>: a \<open>ClientError\<close> ends the \<open>try\<close> and the function goes
  on with \<open>region_data\<close> as it is; any other exception leaves the function.
\<close>

fun except_ClientError :: "tried \<Rightarrow> call list \<times> (exn + region_data)" where
  "except_ClientError (cs, None, d) = (cs, Inr d)"
| "except_ClientError (cs, Some e, d) = (if e = ClientError then (cs, Inr d) else (cs, Inl e))"

text \<open>Lines 31-87: the body of the loop over the regions, up to the final store.\<close>

definition collect_region :: "aws \<Rightarrow> string \<Rightarrow> call list \<times> (exn + region_data)" where
  "collect_region w region =
     (case except_ClientError (ec2_try w region new_region_data) of
        (cs1, Inl e) \<Rightarrow> (cs1, Inl e)
      | (cs1, Inr d1) \<Rightarrow>
     (case except_ClientError (s3_try w region d1) of
        (cs2, Inl e) \<Rightarrow> (cs1 @ cs2, Inl e)
      | (cs2, Inr d2) \<Rightarrow>
     (case except_ClientError (rds_try w region d2) of
        (cs3, Inl e) \<Rightarrow> (cs1 @ cs2 @ cs3, Inl e)
      | (cs3, Inr d3) \<Rightarrow> (cs1 @ cs2 @ cs3, Inr d3))))"

subsection \<open>\<open>get_all_resources\<close>: all regions\<close>

text \<open>
  Lines 26-89: the loop over \<open>regions\<close>. The label \<open>ALL\<close> is skipped before anything is
  stored for it; every other region is collected and stored under its name.
\<close>

fun regions_loop :: "aws \<Rightarrow> string list \<Rightarrow> inventory \<Rightarrow> call list \<times> (exn + inventory)" where
  "regions_loop w [] resources_by_region = ([], Inr resources_by_region)"
| "regions_loop w (region # rest) resources_by_region =
     (if region = ''ALL'' then regions_loop w rest resources_by_region
      else
        (case collect_region w region of
           (cs, Inl e) \<Rightarrow> (cs, Inl e)
         | (cs, Inr region_data) \<Rightarrow>
             (case regions_loop w rest (dict_set region region_data resources_by_region) of
                (cs', r) \<Rightarrow> (cs @ cs', r))))"

text \<open>
  Lines 16-21: the region listing. On \<open>ClientError\<close> the function returns the empty
  dictionary at once, which \<open>get_all_resources\<close> below passes on.
\<close>

definition discover_regions :: "aws \<Rightarrow> call list \<times> (exn + string list option)" where
  "discover_regions w =
     (case describe_regions w of
        Inl e \<Rightarrow> if e = ClientError then ([DescribeRegions], Inr None)
                 else ([DescribeRegions], Inl e)
      | Inr regions_data \<Rightarrow> ([DescribeRegions], Inr (Some (map RegionName regions_data))))"

definition get_all_resources :: "aws \<Rightarrow> call list \<times> (exn + inventory)" where
  "get_all_resources w =
     (case discover_regions w of
        (cs, Inl e) \<Rightarrow> (cs, Inl e)
      | (cs, Inr None) \<Rightarrow> (cs, Inr [])
      | (cs, Inr (Some regions)) \<Rightarrow>
          (case regions_loop w (''ALL'' # regions) [] of (cs', r) \<Rightarrow> (cs @ cs', r)))"

subsection \<open>The window: the combined view and the formatter\<close>

text \<open>
  Lines 156-157: \<open>for key in combined: combined[key].extend(region_data[key])\<close>.
  \<open>region_data[key]\<close> raises \<open>KeyError\<close> when the region has no such key.
\<close>

fun extend_keys :: "region_data \<Rightarrow> region_data \<Rightarrow> exn + region_data" where
  "extend_keys region_data [] = Inr []"
| "extend_keys region_data ((key, xs) # rest) =
     (case map_of region_data key of
        None \<Rightarrow> Inl KeyError
      | Some ys \<Rightarrow>
          (case extend_keys region_data rest of
             Inl e \<Rightarrow> Inl e
           | Inr rest' \<Rightarrow> Inr ((key, xs @ ys) # rest')))"

text \<open>Lines 153-157: the loop over the stored regions, skipping the label \<open>ALL\<close>.\<close>

fun combine_loop :: "inventory \<Rightarrow> region_data \<Rightarrow> exn + region_data" where
  "combine_loop [] combined = Inr combined"
| "combine_loop ((r, region_data) # rest) combined =
     (if r = ''ALL'' then combine_loop rest combined
      else
        (case extend_keys region_data combined of
           Inl e \<Rightarrow> Inl e
         | Inr combined' \<Rightarrow> combine_loop rest combined'))"

text \<open>Lines 145-157: the view shown for \<open>ALL\<close>.\<close>

definition combine_all :: "inventory \<Rightarrow> exn + region_data" where
  "combine_all resources = combine_loop resources new_region_data"

text \<open>\<open>"\n".join(lines)\<close>.\<close>

fun join_lines :: "string list \<Rightarrow> string" where
  "join_lines [] = []"
| "join_lines [l] = l"
| "join_lines (l # m # rest) = l @ [CHR 0x0A] @ join_lines (m # rest)"

text \<open>Lines 175-176.\<close>

fun append_items :: "string list \<Rightarrow> string list \<Rightarrow> string list" where
  "append_items [] lines = lines"
| "append_items (item # rest) lines = append_items rest (lines @ [''  - '' @ item])"

text \<open>Lines 170-177: the loop over the items of the dictionary, in its own order.\<close>

fun format_loop :: "region_data \<Rightarrow> string list \<Rightarrow> string list" where
  "format_loop [] lines = lines"
| "format_loop ((resource_type, items) # rest) lines =
     format_loop rest
       ((if items = [] then (lines @ [resource_type @ '':'']) @ [''  - (none)'']
         else append_items items (lines @ [resource_type @ '':''])) @ [''''])"

definition format_region_data :: "string \<Rightarrow> region_data \<Rightarrow> string" where
  "format_region_data region data_dict =
     join_lines (format_loop data_dict [''Resources in region: '' @ region @ [CHR 0x0A]])"

text \<open>
  Lines 138-166: what \<open>display_resources_for_region\<close> puts into the display, for the
  selected label (\<open>None\<close> when nothing is selected, and then nothing is displayed).
\<close>

definition display_resources_for_region :: "inventory \<Rightarrow> string option \<Rightarrow> exn + string option" where
  "display_resources_for_region resources current =
     (case current of
        None \<Rightarrow> Inr None
      | Some region \<Rightarrow>
          if region = ''ALL'' then
            (case combine_all resources of
               Inl e \<Rightarrow> Inl e
             | Inr combined \<Rightarrow> Inr (Some (format_region_data ''ALL'' combined)))
          else
            (case map_of resources region of
               None \<Rightarrow> Inr (Some (format_region_data region []))
             | Some region_data \<Rightarrow> Inr (Some (format_region_data region region_data))))"

section \<open>What a run yields\<close>

text \<open>
  The functions of this section are not in the program. They say, as plain recursion on
  the responses, what the loops above compute, and the lemmas further down prove that
  the loops compute exactly that. The theorems about the program are derived from them.
\<close>

text \<open>
  The dictionary of one region with the given items under its six keys, in the order of
  the dictionary literal.
\<close>

definition region_dict :: "string list \<Rightarrow> string list \<Rightarrow> string list \<Rightarrow> string list \<Rightarrow> string list \<Rightarrow> string list \<Rightarrow> region_data" where
  "region_dict i v s g b x =
     [(''Instances'', i), (''Volumes'', v), (''Snapshots'', s),
      (''SecurityGroups'', g), (''S3Buckets'', b), (''RDSInstances'', x)]"

text \<open>
  The items of each kind after the first \<open>try\<close>: a kind has items when its call and
  every call before it in the \<open>try\<close> answered.
\<close>

definition inst_items :: "aws \<Rightarrow> string \<Rightarrow> string list" where
  "inst_items w r =
     (case describe_instances w r of
        Inl e \<Rightarrow> []
      | Inr rs \<Rightarrow> concat (map (\<lambda>x. map InstanceId (Instances x)) rs))"

definition vol_items :: "aws \<Rightarrow> string \<Rightarrow> string list" where
  "vol_items w r =
     (case describe_instances w r of Inl e \<Rightarrow> [] | Inr rs \<Rightarrow>
     (case describe_volumes w r of Inl e \<Rightarrow> [] | Inr vs \<Rightarrow> map VolumeId vs))"

definition snap_items :: "aws \<Rightarrow> string \<Rightarrow> string list" where
  "snap_items w r =
     (case describe_instances w r of Inl e \<Rightarrow> [] | Inr rs \<Rightarrow>
     (case describe_volumes w r of Inl e \<Rightarrow> [] | Inr vs \<Rightarrow>
     (case describe_snapshots w r of Inl e \<Rightarrow> [] | Inr ss \<Rightarrow> map SnapshotId ss)))"

definition sg_items :: "aws \<Rightarrow> string \<Rightarrow> string list" where
  "sg_items w r =
     (case describe_instances w r of Inl e \<Rightarrow> [] | Inr rs \<Rightarrow>
     (case describe_volumes w r of Inl e \<Rightarrow> [] | Inr vs \<Rightarrow>
     (case describe_snapshots w r of Inl e \<Rightarrow> [] | Inr ss \<Rightarrow>
     (case describe_security_groups w r of Inl e \<Rightarrow> [] | Inr gs \<Rightarrow> map sg_item gs))))"

text \<open>
  The exception that ends the first \<open>try\<close>, if any: that of the first call that raises.
\<close>

definition ec2_exn :: "aws \<Rightarrow> string \<Rightarrow> exn option" where
  "ec2_exn w r =
     (case describe_instances w r of Inl e \<Rightarrow> Some e | Inr rs \<Rightarrow>
     (case describe_volumes w r of Inl e \<Rightarrow> Some e | Inr vs \<Rightarrow>
     (case describe_snapshots w r of Inl e \<Rightarrow> Some e | Inr ss \<Rightarrow>
     (case describe_security_groups w r of Inl e \<Rightarrow> Some e | Inr gs \<Rightarrow> None))))"

text \<open>The test of line 73.\<close>

definition keeps :: "string \<Rightarrow> string option \<Rightarrow> bool" where
  "keeps region loc = (loc = Some region \<or> (loc = None \<and> region = ''us-east-1''))"

text \<open>
  The buckets kept by the loop of lines 71-74: those whose location passes the test,
  up to the first location lookup that raises.
\<close>

fun kept_buckets :: "aws \<Rightarrow> string \<Rightarrow> bucket list \<Rightarrow> string list" where
  "kept_buckets w r [] = []"
| "kept_buckets w r (b # rest) =
     (case get_bucket_location w r (Name b) of
        Inl e \<Rightarrow> []
      | Inr loc \<Rightarrow> (if keeps r loc then [Name b] else []) @ kept_buckets w r rest)"

fun buckets_exn :: "aws \<Rightarrow> string \<Rightarrow> bucket list \<Rightarrow> exn option" where
  "buckets_exn w r [] = None"
| "buckets_exn w r (b # rest) =
     (case get_bucket_location w r (Name b) of
        Inl e \<Rightarrow> Some e
      | Inr loc \<Rightarrow> buckets_exn w r rest)"

definition bucket_items :: "aws \<Rightarrow> string \<Rightarrow> string list" where
  "bucket_items w r =
     (case list_buckets w r of Inl e \<Rightarrow> [] | Inr bs \<Rightarrow> kept_buckets w r bs)"

definition s3_exn :: "aws \<Rightarrow> string \<Rightarrow> exn option" where
  "s3_exn w r = (case list_buckets w r of Inl e \<Rightarrow> Some e | Inr bs \<Rightarrow> buckets_exn w r bs)"

definition rds_items :: "aws \<Rightarrow> string \<Rightarrow> string list" where
  "rds_items w r =
     (case describe_db_instances w r of Inl e \<Rightarrow> [] | Inr ds \<Rightarrow> map db_item ds)"

definition rds_exn :: "aws \<Rightarrow> string \<Rightarrow> exn option" where
  "rds_exn w r = (case describe_db_instances w r of Inl e \<Rightarrow> Some e | Inr ds \<Rightarrow> None)"

text \<open>What \<open>except ClientError\<close> lets through.\<close>

definition uncaught :: "exn option \<Rightarrow> exn option" where
  "uncaught x = (case x of None \<Rightarrow> None | Some e \<Rightarrow> if e = ClientError then None else Some e)"

text \<open>The exception that leaves the collection of a region, if any.\<close>

definition region_exn :: "aws \<Rightarrow> string \<Rightarrow> exn option" where
  "region_exn w r =
     (case uncaught (ec2_exn w r) of Some e \<Rightarrow> Some e | None \<Rightarrow>
     (case uncaught (s3_exn w r) of Some e \<Rightarrow> Some e | None \<Rightarrow> uncaught (rds_exn w r)))"

text \<open>The dictionary stored for a region that is collected without such an exception.\<close>

definition region_items :: "aws \<Rightarrow> string \<Rightarrow> region_data" where
  "region_items w r =
     region_dict (inst_items w r) (vol_items w r) (snap_items w r) (sg_items w r)
        (bucket_items w r) (rds_items w r)"

text \<open>\<open>resources_by_region\<close> after the loop over the regions.\<close>

fun store_all :: "aws \<Rightarrow> string list \<Rightarrow> inventory \<Rightarrow> inventory" where
  "store_all w [] m = m"
| "store_all w (r # rest) m =
     (if r = ''ALL'' then store_all w rest m
      else store_all w rest (dict_set r (region_items w r) m))"

text \<open>The exception that leaves the loop over the regions, if any.\<close>

fun first_exn :: "aws \<Rightarrow> string list \<Rightarrow> exn option" where
  "first_exn w [] = None"
| "first_exn w (r # rest) =
     (if r = ''ALL'' then first_exn w rest
      else (case region_exn w r of Some e \<Rightarrow> Some e | None \<Rightarrow> first_exn w rest))"

text \<open>
  The elements of a list that are not in \<open>seen\<close>, each once, in the order of their
  first occurrence: the order of the keys of a dictionary filled by assignments.
\<close>

fun first_occurrences :: "'a list \<Rightarrow> 'a list \<Rightarrow> 'a list" where
  "first_occurrences seen [] = []"
| "first_occurrences seen (x # xs) =
     (if x \<in> set seen then first_occurrences seen xs
      else x # first_occurrences (seen @ [x]) xs)"

text \<open>The lines that one round of the formatter's loop appends.\<close>

definition kind_block :: "string \<Rightarrow> string list \<Rightarrow> string list" where
  "kind_block kind items =
     [kind @ '':''] @
     (if items = [] then [''  - (none)''] else map (\<lambda>item. ''  - '' @ item) items) @
     ['''']"

section \<open>Vocabulary of the properties\<close>

text \<open>The six kinds of resources, and the key of each in the dictionary of a region.\<close>

datatype resource_kind = Instance | Volume | Snapshot | SecurityGroup | Bucket | ManagedDatabase

fun key_of :: "resource_kind \<Rightarrow> string" where
  "key_of Instance = ''Instances''"
| "key_of Volume = ''Volumes''"
| "key_of Snapshot = ''Snapshots''"
| "key_of SecurityGroup = ''SecurityGroups''"
| "key_of Bucket = ''S3Buckets''"
| "key_of ManagedDatabase = ''RDSInstances''"

fun kind_items :: "aws \<Rightarrow> resource_kind \<Rightarrow> string \<Rightarrow> string list" where
  "kind_items w Instance r = inst_items w r"
| "kind_items w Volume r = vol_items w r"
| "kind_items w Snapshot r = snap_items w r"
| "kind_items w SecurityGroup r = sg_items w r"
| "kind_items w Bucket r = bucket_items w r"
| "kind_items w ManagedDatabase r = rds_items w r"

text \<open>The items stored for a region under a key, if the inventory has the region and the key.\<close>

definition items_at :: "inventory \<Rightarrow> string \<Rightarrow> string \<Rightarrow> string list option" where
  "items_at m region kind = (case map_of m region of None \<Rightarrow> None | Some d \<Rightarrow> map_of d kind)"

text \<open>
  The same provider, except that the listing call of one kind fails with \<open>ClientError\<close>
  in one region (for buckets: the listing call issued while that region is enumerated).
\<close>

fun fail_probe :: "resource_kind \<Rightarrow> string \<Rightarrow> aws \<Rightarrow> aws" where
  "fail_probe Instance region w =
     w\<lparr>describe_instances := (describe_instances w)(region := Inl ClientError)\<rparr>"
| "fail_probe Volume region w =
     w\<lparr>describe_volumes := (describe_volumes w)(region := Inl ClientError)\<rparr>"
| "fail_probe Snapshot region w =
     w\<lparr>describe_snapshots := (describe_snapshots w)(region := Inl ClientError)\<rparr>"
| "fail_probe SecurityGroup region w =
     w\<lparr>describe_security_groups := (describe_security_groups w)(region := Inl ClientError)\<rparr>"
| "fail_probe Bucket region w =
     w\<lparr>list_buckets := (list_buckets w)(region := Inl ClientError)\<rparr>"
| "fail_probe ManagedDatabase region w =
     w\<lparr>describe_db_instances := (describe_db_instances w)(region := Inl ClientError)\<rparr>"

text \<open>
  The kinds left empty by such a failure: the kind itself and, for the four kinds listed
  in the first \<open>try\<close>, the kinds listed after it there.
\<close>

fun emptied :: "resource_kind \<Rightarrow> resource_kind list" where
  "emptied Instance = [Instance, Volume, Snapshot, SecurityGroup]"
| "emptied Volume = [Volume, Snapshot, SecurityGroup]"
| "emptied Snapshot = [Snapshot, SecurityGroup]"
| "emptied SecurityGroup = [SecurityGroup]"
| "emptied Bucket = [Bucket]"
| "emptied ManagedDatabase = [ManagedDatabase]"

text \<open>
  A response that the program copes with: an answer, or \<open>ClientError\<close>. In an
  account where every response is of that kind, no exception leaves a \<open>try\<close>.
\<close>

definition handled :: "'a response \<Rightarrow> bool" where
  "handled x = (case x of Inl e \<Rightarrow> e = ClientError | Inr y \<Rightarrow> True)"

definition client_errors_only :: "aws \<Rightarrow> bool" where
  "client_errors_only w \<longleftrightarrow>
     (\<forall>r. handled (describe_instances w r) \<and> handled (describe_volumes w r) \<and>
          handled (describe_snapshots w r) \<and> handled (describe_security_groups w r) \<and>
          handled (list_buckets w r) \<and> (\<forall>b. handled (get_bucket_location w r b)) \<and>
          handled (describe_db_instances w r))"

text \<open>The region a bucket is attributed to, by the test of line 73.\<close>

definition governing_region :: "string option \<Rightarrow> string" where
  "governing_region loc = (case loc of None \<Rightarrow> ''us-east-1'' | Some g \<Rightarrow> g)"

text \<open>
  The text the formatter is to emit for one kind: a header line, then the marker
  \<open>(none)\<close> on a line or one line per item, every line ended by a newline.
\<close>

definition kind_text :: "string \<Rightarrow> string list \<Rightarrow> string" where
  "kind_text kind items =
     kind @ '':'' @ [CHR 0x0A] @
     (if items = [] then ''  - (none)'' @ [CHR 0x0A]
      else concat (map (\<lambda>item. ''  - '' @ item @ [CHR 0x0A]) items))"

section \<open>Example accounts\<close>

text \<open>
  An account with two regions and three buckets, where every call answers: one bucket
  without location, one in \<open>eu-west-1\<close>, one in a region that is not listed.
\<close>

definition demo_account :: aws where
  "demo_account =
     \<lparr>describe_regions = Inr [\<lparr>RegionName = ''us-east-1''\<rparr>, \<lparr>RegionName = ''eu-west-1''\<rparr>],
      describe_instances =
        (\<lambda>r. if r = ''us-east-1'' then Inr [\<lparr>Instances = [\<lparr>InstanceId = ''i-1''\<rparr>]\<rparr>] else Inr []),
      describe_volumes =
        (\<lambda>r. if r = ''us-east-1'' then Inr [\<lparr>VolumeId = ''vol-1''\<rparr>] else Inr []),
      describe_snapshots =
        (\<lambda>r. if r = ''us-east-1'' then Inr [\<lparr>SnapshotId = ''snap-1''\<rparr>] else Inr []),
      describe_security_groups =
        (\<lambda>r. if r = ''eu-west-1'' then Inr [\<lparr>GroupName = ''web'', GroupId = ''sg-1''\<rparr>]
             else Inr []),
      list_buckets =
        (\<lambda>r. Inr [\<lparr>Name = ''logs''\<rparr>, \<lparr>Name = ''assets''\<rparr>, \<lparr>Name = ''backup''\<rparr>]),
      get_bucket_location =
        (\<lambda>r b. if b = ''assets'' then Inr (Some ''eu-west-1'')
               else if b = ''backup'' then Inr (Some ''ap-south-1'') else Inr None),
      describe_db_instances =
        (\<lambda>r. if r = ''us-east-1''
             then Inr [\<lparr>DBInstanceIdentifier = ''db1'', DBInstanceStatus = ''available''\<rparr>]
             else Inr [])\<rparr>"

text \<open>The calls of a run on this account, and what it returns.\<close>

definition demo_calls :: "call list" where
  "demo_calls =
     [DescribeRegions, DescribeInstances ''us-east-1'',
      DescribeVolumes ''us-east-1'',
      DescribeSnapshots ''us-east-1'' [''self''],
      DescribeSecurityGroups ''us-east-1'', ListBuckets,
      GetBucketLocation ''logs'', GetBucketLocation ''assets'',
      GetBucketLocation ''backup'', DescribeDBInstances ''us-east-1'',
      DescribeInstances ''eu-west-1'', DescribeVolumes ''eu-west-1'',
      DescribeSnapshots ''eu-west-1'' [''self''],
      DescribeSecurityGroups ''eu-west-1'', ListBuckets,
      GetBucketLocation ''logs'', GetBucketLocation ''assets'',
      GetBucketLocation ''backup'', DescribeDBInstances ''eu-west-1'']"

definition demo_us :: region_data where
  "demo_us =
     [(''Instances'', [''i-1'']), (''Volumes'', [''vol-1'']),
      (''Snapshots'', [''snap-1'']), (''SecurityGroups'', []),
      (''S3Buckets'', [''logs'']),
      (''RDSInstances'', [''db1 (Status: available)''])]"

definition demo_eu :: region_data where
  "demo_eu =
     [(''Instances'', []), (''Volumes'', []), (''Snapshots'', []),
      (''SecurityGroups'', [''web (sg-1)'']), (''S3Buckets'', [''assets'']),
      (''RDSInstances'', [])]"

definition demo_inventory :: inventory where
  "demo_inventory = [(''us-east-1'', demo_us), (''eu-west-1'', demo_eu)]"

text \<open>The view under \<open>ALL\<close> of this inventory.\<close>

definition demo_combined :: region_data where
  "demo_combined =
     [(''Instances'', [''i-1'']), (''Volumes'', [''vol-1'']),
      (''Snapshots'', [''snap-1'']), (''SecurityGroups'', [''web (sg-1)'']),
      (''S3Buckets'', [''logs'', ''assets'']),
      (''RDSInstances'', [''db1 (Status: available)''])]"

text \<open>The same account when the region listing is denied.\<close>

definition discovery_denied :: aws where
  "discovery_denied = demo_account\<lparr>describe_regions := Inl ClientError\<rparr>"

text \<open>A region listing that names a region twice.\<close>

definition repeated_regions :: aws where
  "repeated_regions =
     demo_account\<lparr>describe_regions :=
       Inr [\<lparr>RegionName = ''us-east-1''\<rparr>, \<lparr>RegionName = ''us-east-1''\<rparr>]\<rparr>"

text \<open>The same account when the region listing leaves \<open>us-east-1\<close> out.\<close>

definition only_europe :: aws where
  "only_europe = demo_account\<lparr>describe_regions := Inr [\<lparr>RegionName = ''eu-west-1''\<rparr>]\<rparr>"

text \<open>
  An account where the location of the first listed bucket cannot be read, and the
  second bucket has no location.
\<close>

definition first_lookup_denied :: aws where
  "first_lookup_denied =
     demo_account
       \<lparr>list_buckets := (\<lambda>r. Inr [\<lparr>Name = ''backup''\<rparr>, \<lparr>Name = ''logs''\<rparr>]),
        get_bucket_location :=
          (\<lambda>r b. if b = ''backup'' then Inl ClientError else Inr None)\<rparr>"

definition first_lookup_denied_inventory :: inventory where
  "first_lookup_denied_inventory =
     [(''us-east-1'',
       [(''Instances'', [''i-1'']), (''Volumes'', [''vol-1'']), (''Snapshots'', [''snap-1'']),
        (''SecurityGroups'', []), (''S3Buckets'', []),
        (''RDSInstances'', [''db1 (Status: available)''])]),
      (''eu-west-1'',
       [(''Instances'', []), (''Volumes'', []), (''Snapshots'', []),
        (''SecurityGroups'', [''web (sg-1)'']), (''S3Buckets'', []),
        (''RDSInstances'', [])])]"

text \<open>
  What a run returns when the listing of instances, or of snapshots, fails in \<open>us-east-1\<close>.
\<close>

definition instances_denied_inventory :: inventory where
  "instances_denied_inventory =
     [(''us-east-1'',
       [(''Instances'', []), (''Volumes'', []), (''Snapshots'', []),
        (''SecurityGroups'', []), (''S3Buckets'', [''logs'']),
        (''RDSInstances'', [''db1 (Status: available)''])]),
      (''eu-west-1'', demo_eu)]"

definition snapshots_denied_inventory :: inventory where
  "snapshots_denied_inventory =
     [(''us-east-1'',
       [(''Instances'', [''i-1'']), (''Volumes'', [''vol-1'']), (''Snapshots'', []),
        (''SecurityGroups'', []), (''S3Buckets'', [''logs'']),
        (''RDSInstances'', [''db1 (Status: available)''])]),
      (''eu-west-1'', demo_eu)]"

text \<open>
  The same account when every listing of snapshots fails and the location of the bucket
  \<open>assets\<close> cannot be read, and what a run returns then.
\<close>

definition partial_failures :: aws where
  "partial_failures =
     demo_account
       \<lparr>describe_snapshots := (\<lambda>r. Inl ClientError),
        get_bucket_location :=
          (\<lambda>r b. if b = ''assets'' then Inl ClientError
                 else get_bucket_location demo_account r b)\<rparr>"

definition partial_inventory :: inventory where
  "partial_inventory =
     [(''us-east-1'',
       [(''Instances'', [''i-1'']), (''Volumes'', [''vol-1'']), (''Snapshots'', []),
        (''SecurityGroups'', []), (''S3Buckets'', [''logs'']),
        (''RDSInstances'', [''db1 (Status: available)''])]),
      (''eu-west-1'',
       [(''Instances'', []), (''Volumes'', []), (''Snapshots'', []),
        (''SecurityGroups'', []), (''S3Buckets'', []), (''RDSInstances'', [])])]"

text \<open>
  What a run returns when the bucket listing fails while \<open>eu-west-1\<close> is enumerated.
\<close>

definition eu_listing_denied_inventory :: inventory where
  "eu_listing_denied_inventory =
     [(''us-east-1'', demo_us),
      (''eu-west-1'',
       [(''Instances'', []), (''Volumes'', []), (''Snapshots'', []),
        (''SecurityGroups'', [''web (sg-1)'']), (''S3Buckets'', []),
        (''RDSInstances'', [])])]"

text \<open>
  The same account when the listing of snapshots raises an exception that is not a \<open>ClientError\<close>.
\<close>

definition snapshots_crash :: aws where
  "snapshots_crash = demo_account\<lparr>describe_snapshots := (\<lambda>r. Inl OtherError)\<rparr>"

section \<open>The loops compute the closed forms\<close>

lemma keys_dict_append: "map fst (dict_append k x d) = map fst d"
  by (induction d) auto

lemma key_of_kinds:
  "map key_of [Instance, Volume, Snapshot, SecurityGroup, Bucket, ManagedDatabase] =
     resource_kinds"
  by (simp add: resource_kinds_def)

lemma new_region_data_rd: "new_region_data = region_dict [] [] [] [] [] []"
  by (simp add: new_region_data_def region_dict_def)

lemma dict_append_rd:
  "dict_append ''Instances'' y (region_dict i v s g b x) = region_dict (i @ [y]) v s g b x"
  "dict_append ''Volumes'' y (region_dict i v s g b x) = region_dict i (v @ [y]) s g b x"
  "dict_append ''Snapshots'' y (region_dict i v s g b x) = region_dict i v (s @ [y]) g b x"
  "dict_append ''SecurityGroups'' y (region_dict i v s g b x) = region_dict i v s (g @ [y]) b x"
  "dict_append ''S3Buckets'' y (region_dict i v s g b x) = region_dict i v s g (b @ [y]) x"
  "dict_append ''RDSInstances'' y (region_dict i v s g b x) = region_dict i v s g b (x @ [y])"
  by (simp_all add: region_dict_def)

lemma add_instances_rd:
  "add_instances is (region_dict i v s g b x) = region_dict (i @ map InstanceId is) v s g b x"
  by (induction "is" arbitrary: i) (simp_all add: dict_append_rd)

lemma add_reservations_rd:
  "add_reservations rs (region_dict i v s g b x) =
     region_dict (i @ concat (map (\<lambda>r. map InstanceId (Instances r)) rs)) v s g b x"
  by (induction rs arbitrary: i) (simp_all add: add_instances_rd)

lemma add_volumes_rd:
  "add_volumes vs (region_dict i v s g b x) = region_dict i (v @ map VolumeId vs) s g b x"
  by (induction vs arbitrary: v) (simp_all add: dict_append_rd)

lemma add_snapshots_rd:
  "add_snapshots ss (region_dict i v s g b x) = region_dict i v (s @ map SnapshotId ss) g b x"
  by (induction ss arbitrary: s) (simp_all add: dict_append_rd)

lemma add_security_groups_rd:
  "add_security_groups gs (region_dict i v s g b x) = region_dict i v s (g @ map sg_item gs) b x"
  by (induction gs arbitrary: g) (simp_all add: dict_append_rd)

lemma add_db_instances_rd:
  "add_db_instances ds (region_dict i v s g b x) = region_dict i v s g b (x @ map db_item ds)"
  by (induction ds arbitrary: x) (simp_all add: dict_append_rd)

lemma snd_ec2_try:
  "snd (ec2_try w r (region_dict i v s g b x)) =
     (ec2_exn w r,
      region_dict (i @ inst_items w r) (v @ vol_items w r) (s @ snap_items w r) (g @ sg_items w r) b x)"
  by (simp add: ec2_try_def ec2_exn_def inst_items_def vol_items_def snap_items_def
      sg_items_def add_reservations_rd add_volumes_rd add_snapshots_rd add_security_groups_rd
      split: sum.splits)

lemma snd_buckets_loop:
  "snd (buckets_loop w r bs (region_dict i v s g b x)) =
     (buckets_exn w r bs, region_dict i v s g (b @ kept_buckets w r bs) x)"
proof (induction bs arbitrary: b)
  case Nil
  show ?case by simp
next
  case (Cons a bs)
  show ?case
  proof (cases "get_bucket_location w r (Name a)")
    case (Inl e)
    then show ?thesis by simp
  next
    case (Inr loc)
    have k: "(loc = Some r \<or> (loc = None \<and> r = ''us-east-1'')) = keeps r loc"
      by (simp add: keeps_def)
    show ?thesis
    proof (cases "keeps r loc")
      case True
      then show ?thesis
        using Inr Cons.IH [of "b @ [Name a]"]
        by (simp add: k dict_append_rd case_prod_beta)
    next
      case False
      then show ?thesis
        using Inr Cons.IH [of b]
        by (simp add: k case_prod_beta)
    qed
  qed
qed

lemma snd_s3_try:
  "snd (s3_try w r (region_dict i v s g b x)) = (s3_exn w r, region_dict i v s g (b @ bucket_items w r) x)"
  by (simp add: s3_try_def s3_exn_def bucket_items_def snd_buckets_loop case_prod_beta
      split: sum.splits)

lemma snd_rds_try:
  "snd (rds_try w r (region_dict i v s g b x)) = (rds_exn w r, region_dict i v s g b (x @ rds_items w r))"
  by (simp add: rds_try_def rds_exn_def rds_items_def add_db_instances_rd split: sum.splits)

lemma snd_except_ClientError:
  "snd (except_ClientError t) =
     (case uncaught (fst (snd t)) of None \<Rightarrow> Inr (snd (snd t)) | Some e \<Rightarrow> Inl e)"
  by (cases t rule: except_ClientError.cases) (simp_all add: uncaught_def)

lemma fst_except_ClientError: "fst (except_ClientError t) = fst t"
  by (cases t rule: except_ClientError.cases) simp_all

lemma snd_collect_region:
  "snd (collect_region w r) =
     (case region_exn w r of None \<Rightarrow> Inr (region_items w r) | Some e \<Rightarrow> Inl e)"
proof -
  have e: "except_ClientError t = (fst t, case uncaught (fst (snd t)) of None \<Rightarrow> Inr (snd (snd t)) | Some e \<Rightarrow> Inl e)" for t
    using fst_except_ClientError [of t] snd_except_ClientError [of t]
    by (metis prod.collapse)
  show ?thesis
    unfolding collect_region_def new_region_data_rd
    by (simp add: e snd_ec2_try snd_s3_try snd_rds_try region_exn_def region_items_def
        split: option.splits prod.splits sum.splits)
qed

lemma count_ec2_try: "count_list (fst (ec2_try w r d)) ListBuckets = 0"
  by (simp add: ec2_try_def Let_def split: sum.splits)

lemma count_buckets_loop: "count_list (fst (buckets_loop w r bs d)) ListBuckets = 0"
  by (induction bs arbitrary: d) (simp_all add: case_prod_beta split: sum.splits)

lemma count_s3_try: "count_list (fst (s3_try w r d)) ListBuckets = 1"
  by (simp add: s3_try_def count_buckets_loop case_prod_beta split: sum.splits)

lemma count_rds_try: "count_list (fst (rds_try w r d)) ListBuckets = 0"
  by (simp add: rds_try_def split: sum.splits)

lemma count_collect_region:
  assumes "collect_region w r = (cs, Inr d)"
  shows "count_list cs ListBuckets = 1"
proof -
  obtain c1 r1 where t1: "except_ClientError (ec2_try w r new_region_data) = (c1, r1)"
    by (cases "except_ClientError (ec2_try w r new_region_data)")
  then obtain d1 where r1: "r1 = Inr d1"
    using assms by (cases r1) (simp_all add: collect_region_def)
  obtain c2 r2 where t2: "except_ClientError (s3_try w r d1) = (c2, r2)"
    by (cases "except_ClientError (s3_try w r d1)")
  then obtain d2 where r2: "r2 = Inr d2"
    using assms t1 r1 by (cases r2) (simp_all add: collect_region_def)
  obtain c3 r3 where t3: "except_ClientError (rds_try w r d2) = (c3, r3)"
    by (cases "except_ClientError (rds_try w r d2)")
  have cs: "cs = c1 @ c2 @ c3"
    using assms t1 r1 t2 r2 t3 by (cases r3) (simp_all add: collect_region_def)
  have "c1 = fst (ec2_try w r new_region_data)" "c2 = fst (s3_try w r d1)"
    "c3 = fst (rds_try w r d2)"
    using t1 t2 t3 fst_except_ClientError by (metis fst_conv)+
  then show ?thesis
    by (simp add: cs count_ec2_try count_s3_try count_rds_try)
qed

lemma snd_regions_loop:
  "snd (regions_loop w rs m) =
     (case first_exn w rs of None \<Rightarrow> Inr (store_all w rs m) | Some e \<Rightarrow> Inl e)"
proof (induction rs arbitrary: m)
  case Nil
  show ?case by simp
next
  case (Cons r rs)
  show ?case
  proof (cases "r = ''ALL''")
    case True
    then show ?thesis using Cons.IH by (simp split: option.splits)
  next
    case False
    obtain cs res where c: "collect_region w r = (cs, res)"
      by (cases "collect_region w r")
    have res: "res = (case region_exn w r of None \<Rightarrow> Inr (region_items w r) | Some e \<Rightarrow> Inl e)"
      using snd_collect_region [of w r] c by simp
    show ?thesis
      using False c res Cons.IH
      by (simp add: case_prod_beta split: option.splits)
  qed
qed

lemma count_regions_loop:
  "regions_loop w rs m = (cs, Inr m') \<Longrightarrow>
     count_list cs ListBuckets = length (filter (\<lambda>r. r \<noteq> ''ALL'') rs)"
proof (induction rs arbitrary: m cs)
  case Nil
  then show ?case by simp
next
  case (Cons r rs)
  show ?case
  proof (cases "r = ''ALL''")
    case True
    then show ?thesis using Cons by simp
  next
    case False
    obtain c1 res where c: "collect_region w r = (c1, res)"
      by (cases "collect_region w r")
    then obtain d where res: "res = Inr d"
      using Cons.prems False by (cases res) simp_all
    obtain c2 res2 where l: "regions_loop w rs (dict_set r d m) = (c2, res2)"
      by (cases "regions_loop w rs (dict_set r d m)")
    have eq: "cs = c1 @ c2" "res2 = Inr m'"
      using Cons.prems False c res l by simp_all
    have "count_list c1 ListBuckets = 1"
      using count_collect_region c res by simp
    moreover have "count_list c2 ListBuckets = length (filter (\<lambda>r. r \<noteq> ''ALL'') rs)"
      using Cons.IH l eq by simp
    ultimately show ?thesis
      using False eq by simp
  qed
qed

lemma map_of_dict_set: "map_of (dict_set k v al) = (map_of al)(k \<mapsto> v)"
  by (induction al) (auto simp: fun_eq_iff)

lemma keys_dict_set:
  "map fst (dict_set k v al) = (if k \<in> set (map fst al) then map fst al else map fst al @ [k])"
  by (induction al) (fastforce+)

lemma map_of_store_all:
  "map_of (store_all w rs m) r =
     (if r \<in> set rs \<and> r \<noteq> ''ALL'' then Some (region_items w r) else map_of m r)"
  by (induction rs arbitrary: m) (auto simp: map_of_dict_set)

lemma dict_set_map:
  "dict_set r (f r) (map (\<lambda>r. (r, f r)) ks) =
     map (\<lambda>r. (r, f r)) (if r \<in> set ks then ks else ks @ [r])"
  by (induction ks) auto

lemma store_all_map:
  "store_all w rs (map (\<lambda>r. (r, region_items w r)) ks) =
     map (\<lambda>r. (r, region_items w r))
       (ks @ first_occurrences ks (filter (\<lambda>r. r \<noteq> ''ALL'') rs))"
proof (induction rs arbitrary: ks)
  case Nil
  show ?case by simp
next
  case (Cons r rs)
  show ?case
    using Cons.IH [of ks] Cons.IH [of "ks @ [r]"]
    by (simp add: dict_set_map)
qed

lemma first_occurrences_distinct:
  "distinct xs \<Longrightarrow> set xs \<inter> set seen = {} \<Longrightarrow> first_occurrences seen xs = xs"
  by (induction xs arbitrary: seen) auto

lemma set_first_occurrences: "set (first_occurrences seen xs) = set xs - set seen"
  by (induction xs arbitrary: seen) auto

lemma distinct_first_occurrences: "distinct (first_occurrences seen xs)"
  by (induction xs arbitrary: seen) (auto simp: set_first_occurrences)

lemma get_all_resources_Inr:
  assumes "get_all_resources w = (cs, Inr m)" and "describe_regions w = Inr rs"
  shows "m = store_all w (map RegionName rs) []"
    and "first_exn w (map RegionName rs) = None"
    and "count_list cs ListBuckets = length (filter (\<lambda>r. r \<noteq> ''ALL'') (map RegionName rs))"
proof -
  obtain c2 res where l: "regions_loop w (''ALL'' # map RegionName rs) [] = (c2, res)"
    by (cases "regions_loop w (''ALL'' # map RegionName rs) []")
  have g: "cs = DescribeRegions # c2" "res = Inr m"
    using assms l by (simp_all add: get_all_resources_def discover_regions_def)
  have s: "snd (regions_loop w (''ALL'' # map RegionName rs) []) = Inr m"
    using l g by simp
  show "m = store_all w (map RegionName rs) []"
    using s unfolding snd_regions_loop by (simp split: option.splits)
  show "first_exn w (map RegionName rs) = None"
    using s unfolding snd_regions_loop by (simp split: option.splits)
  show "count_list cs ListBuckets = length (filter (\<lambda>r. r \<noteq> ''ALL'') (map RegionName rs))"
    using count_regions_loop [OF l [unfolded g]] g by simp
qed

lemma inventory_regions:
  assumes "get_all_resources w = (cs, Inr m)" and "describe_regions w = Inr rs"
  shows "m = map (\<lambda>r. (r, region_items w r))
               (first_occurrences [] (filter (\<lambda>r. r \<noteq> ''ALL'') (map RegionName rs)))"
  using get_all_resources_Inr(1) [OF assms] store_all_map [of w "map RegionName rs" "[]"]
  by simp

lemma inventory_shape:
  assumes "get_all_resources w = (cs, Inr m)"
  shows "\<exists>ks. m = map (\<lambda>r. (r, region_items w r)) ks \<and> ''ALL'' \<notin> set ks \<and> distinct ks"
proof (cases "describe_regions w")
  case (Inl e)
  then have "m = []"
    using assms by (simp add: get_all_resources_def discover_regions_def split: if_splits)
  then show ?thesis by simp
next
  case (Inr rs)
  let ?ks = "first_occurrences [] (filter (\<lambda>r. r \<noteq> ''ALL'') (map RegionName rs))"
  have "m = map (\<lambda>r. (r, region_items w r)) ?ks"
    using inventory_regions [OF assms Inr] .
  moreover have "''ALL'' \<notin> set ?ks"
    by (simp add: set_first_occurrences)
  moreover have "distinct ?ks"
    by (rule distinct_first_occurrences)
  ultimately show ?thesis by blast
qed

lemma keys_region_dict: "map fst (region_dict i v s g b x) = resource_kinds"
  by (simp add: region_dict_def resource_kinds_def)

lemma map_of_region_dict:
  "map_of (region_dict i v s g b x) ''Instances'' = Some i"
  "map_of (region_dict i v s g b x) ''Volumes'' = Some v"
  "map_of (region_dict i v s g b x) ''Snapshots'' = Some s"
  "map_of (region_dict i v s g b x) ''SecurityGroups'' = Some g"
  "map_of (region_dict i v s g b x) ''S3Buckets'' = Some b"
  "map_of (region_dict i v s g b x) ''RDSInstances'' = Some x"
  by (simp_all add: region_dict_def)

lemma extend_keys_rd:
  "extend_keys (region_dict i' v' s' g' b' x') (region_dict i v s g b x) =
     Inr (region_dict (i @ i') (v @ v') (s @ s') (g @ g') (b @ b') (x @ x'))"
  by (simp add: region_dict_def)

lemma combine_loop_regions:
  "''ALL'' \<notin> set ks \<Longrightarrow>
   combine_loop (map (\<lambda>r. (r, region_items w r)) ks) (region_dict i v s g b x) =
     Inr (region_dict (i @ concat (map (inst_items w) ks)) (v @ concat (map (vol_items w) ks))
             (s @ concat (map (snap_items w) ks)) (g @ concat (map (sg_items w) ks))
             (b @ concat (map (bucket_items w) ks)) (x @ concat (map (rds_items w) ks)))"
proof (induction ks arbitrary: i v s g b x)
  case Nil
  show ?case by simp
next
  case (Cons k ks)
  then have "k \<noteq> ''ALL''" "''ALL'' \<notin> set ks" by auto
  then show ?case
    using Cons.IH by (simp add: region_items_def extend_keys_rd)
qed

lemma demo_run: "get_all_resources demo_account = (demo_calls, Inr demo_inventory)"
  by code_simp

lemma demo_regions:
  "describe_regions demo_account =
     Inr [\<lparr>RegionName = ''us-east-1''\<rparr>, \<lparr>RegionName = ''eu-west-1''\<rparr>]"
  by (simp add: demo_account_def)

lemma demo_combine: "combine_all demo_inventory = Inr demo_combined"
  by code_simp

lemma snd_get_all_resources:
  assumes "describe_regions w = Inr rs"
  shows "snd (get_all_resources w) =
           (case first_exn w (map RegionName rs) of
              None \<Rightarrow> Inr (store_all w (map RegionName rs) [])
            | Some e \<Rightarrow> Inl e)"
  using assms snd_regions_loop [of w "''ALL'' # map RegionName rs" "[]"]
  by (simp add: get_all_resources_def discover_regions_def case_prod_beta split: option.splits)

lemma first_exn_None:
  "first_exn w rs = None \<longleftrightarrow> (\<forall>r \<in> set rs. r \<noteq> ''ALL'' \<longrightarrow> region_exn w r = None)"
  by (induction rs) (auto split: option.splits)

lemma fail_probe_fixed:
  "describe_regions (fail_probe K R w) = describe_regions w"
  "get_bucket_location (fail_probe K R w) = get_bucket_location w"
  by (cases K; simp)+

lemma fail_probe_kept:
  "kept_buckets (fail_probe K R w) r bs = kept_buckets w r bs"
  "buckets_exn (fail_probe K R w) r bs = buckets_exn w r bs"
  by (induction bs) (simp_all add: fail_probe_fixed split: sum.splits)

lemma fail_probe_elsewhere:
  assumes "r \<noteq> R"
  shows "region_items (fail_probe K R w) r = region_items w r"
    and "region_exn (fail_probe K R w) r = region_exn w r"
proof -
  have f: "describe_instances (fail_probe K R w) r = describe_instances w r"
    "describe_volumes (fail_probe K R w) r = describe_volumes w r"
    "describe_snapshots (fail_probe K R w) r = describe_snapshots w r"
    "describe_security_groups (fail_probe K R w) r = describe_security_groups w r"
    "list_buckets (fail_probe K R w) r = list_buckets w r"
    "describe_db_instances (fail_probe K R w) r = describe_db_instances w r"
    using assms by (cases K; simp)+
  have i: "inst_items (fail_probe K R w) r = inst_items w r"
    "vol_items (fail_probe K R w) r = vol_items w r"
    "snap_items (fail_probe K R w) r = snap_items w r"
    "sg_items (fail_probe K R w) r = sg_items w r"
    "bucket_items (fail_probe K R w) r = bucket_items w r"
    "rds_items (fail_probe K R w) r = rds_items w r"
    by (simp_all add: inst_items_def vol_items_def snap_items_def sg_items_def
        bucket_items_def rds_items_def f fail_probe_kept cong: sum.case_cong)
  have e: "ec2_exn (fail_probe K R w) r = ec2_exn w r"
    "s3_exn (fail_probe K R w) r = s3_exn w r"
    "rds_exn (fail_probe K R w) r = rds_exn w r"
    by (simp_all add: ec2_exn_def s3_exn_def rds_exn_def f fail_probe_kept cong: sum.case_cong)
  show "region_items (fail_probe K R w) r = region_items w r"
    by (simp add: region_items_def i)
  show "region_exn (fail_probe K R w) r = region_exn w r"
    by (simp add: region_exn_def e cong: option.case_cong)
qed

lemma region_exn_None:
  "region_exn w r = None \<longleftrightarrow>
     uncaught (ec2_exn w r) = None \<and> uncaught (s3_exn w r) = None \<and>
     uncaught (rds_exn w r) = None"
  by (simp add: region_exn_def split: option.splits)

lemma uncaught_ClientError: "uncaught (Some ClientError) = None"
  by (simp add: uncaught_def)

lemma fail_probe_s3:
  "s3_exn (fail_probe K R w) R = s3_exn w R \<and> bucket_items (fail_probe K R w) R = bucket_items w R
   \<or> K = Bucket \<and> s3_exn (fail_probe K R w) R = Some ClientError \<and>
      bucket_items (fail_probe K R w) R = []"
proof -
  have "list_buckets (fail_probe K R w) R = list_buckets w R
      \<or> K = Bucket \<and> list_buckets (fail_probe K R w) R = Inl ClientError"
    by (cases K) simp_all
  then show ?thesis
    by (auto simp: s3_exn_def bucket_items_def fail_probe_kept cong: sum.case_cong)
qed

lemma fail_probe_exn:
  assumes "region_exn w R = None"
  shows "region_exn (fail_probe K R w) R = None"
proof -
  have e: "uncaught (ec2_exn (fail_probe K R w) R) = None"
    using assms unfolding region_exn_None
    by (cases K)
      (simp_all add: ec2_exn_def uncaught_ClientError split: sum.splits)
  have s: "uncaught (s3_exn (fail_probe K R w) R) = None"
    using assms fail_probe_s3 [of K R w] unfolding region_exn_None
    by (auto simp: uncaught_ClientError)
  have d: "uncaught (rds_exn (fail_probe K R w) R) = None"
    using assms unfolding region_exn_None
    by (cases K)
      (simp_all add: rds_exn_def uncaught_ClientError split: sum.splits)
  show ?thesis
    using e s d by (simp add: region_exn_None)
qed

lemma fail_probe_at:
  "describe_instances (fail_probe K R w) R =
     (if K = Instance then Inl ClientError else describe_instances w R)"
  "describe_volumes (fail_probe K R w) R =
     (if K = Volume then Inl ClientError else describe_volumes w R)"
  "describe_snapshots (fail_probe K R w) R =
     (if K = Snapshot then Inl ClientError else describe_snapshots w R)"
  "describe_security_groups (fail_probe K R w) R =
     (if K = SecurityGroup then Inl ClientError else describe_security_groups w R)"
  "list_buckets (fail_probe K R w) R =
     (if K = Bucket then Inl ClientError else list_buckets w R)"
  "describe_db_instances (fail_probe K R w) R =
     (if K = ManagedDatabase then Inl ClientError else describe_db_instances w R)"
  by (cases K; simp)+

lemma fail_probe_ec2_items:
  "inst_items (fail_probe K R w) R = (if K = Instance then [] else inst_items w R)"
  "vol_items (fail_probe K R w) R =
     (if K = Instance \<or> K = Volume then [] else vol_items w R)"
  "snap_items (fail_probe K R w) R =
     (if K = Instance \<or> K = Volume \<or> K = Snapshot then [] else snap_items w R)"
  "sg_items (fail_probe K R w) R =
     (if K = Instance \<or> K = Volume \<or> K = Snapshot \<or> K = SecurityGroup then []
      else sg_items w R)"
  "rds_items (fail_probe K R w) R = (if K = ManagedDatabase then [] else rds_items w R)"
      apply (simp add: inst_items_def fail_probe_at)
     apply (simp add: vol_items_def fail_probe_at split: sum.splits)
    apply (simp add: snap_items_def fail_probe_at split: sum.splits)
   apply (simp add: sg_items_def fail_probe_at split: sum.splits)
  apply (simp add: rds_items_def fail_probe_at)
  done

lemma fail_probe_bucket_items:
  "bucket_items (fail_probe K R w) R = (if K = Bucket then [] else bucket_items w R)"
  by (simp add: bucket_items_def fail_probe_at fail_probe_kept cong: sum.case_cong)

lemma emptied_iff:
  "Instance \<in> set (emptied K) \<longleftrightarrow> K = Instance"
  "Volume \<in> set (emptied K) \<longleftrightarrow> K = Instance \<or> K = Volume"
  "Snapshot \<in> set (emptied K) \<longleftrightarrow> K = Instance \<or> K = Volume \<or> K = Snapshot"
  "SecurityGroup \<in> set (emptied K) \<longleftrightarrow>
     K = Instance \<or> K = Volume \<or> K = Snapshot \<or> K = SecurityGroup"
  "Bucket \<in> set (emptied K) \<longleftrightarrow> K = Bucket"
  "ManagedDatabase \<in> set (emptied K) \<longleftrightarrow> K = ManagedDatabase"
  by (cases K; simp)+

lemma fail_probe_items:
  "map_of (region_items (fail_probe K R w) R) (key_of k) =
     (if k \<in> set (emptied K) then Some [] else map_of (region_items w R) (key_of k))"
proof (cases k)
  case Instance
  show ?thesis
    unfolding Instance region_items_def key_of.simps map_of_region_dict
    by (simp add: fail_probe_ec2_items emptied_iff)
next
  case Volume
  show ?thesis
    unfolding Volume region_items_def key_of.simps map_of_region_dict
    by (simp add: fail_probe_ec2_items emptied_iff)
next
  case Snapshot
  show ?thesis
    unfolding Snapshot region_items_def key_of.simps map_of_region_dict
    by (simp add: fail_probe_ec2_items emptied_iff)
next
  case SecurityGroup
  show ?thesis
    unfolding SecurityGroup region_items_def key_of.simps map_of_region_dict
    by (simp add: fail_probe_ec2_items emptied_iff)
next
  case Bucket
  show ?thesis
    unfolding Bucket region_items_def key_of.simps map_of_region_dict
    by (simp add: fail_probe_bucket_items emptied_iff)
next
  case ManagedDatabase
  show ?thesis
    unfolding ManagedDatabase region_items_def key_of.simps map_of_region_dict
    by (simp add: fail_probe_ec2_items emptied_iff)
qed

lemma snapshots_denied_run:
  "snd (get_all_resources (fail_probe Snapshot ''us-east-1'' demo_account)) =
     Inr snapshots_denied_inventory"
  by code_simp

lemma map_of_region_items:
  "map_of (region_items w r) (key_of k) = Some (kind_items w k r)"
  by (cases k) (simp_all add: region_items_def map_of_region_dict)

lemma append_items_eq: "append_items items lines = lines @ map (\<lambda>item. ''  - '' @ item) items"
  by (induction items arbitrary: lines) simp_all

lemma format_loop_eq:
  "format_loop d lines = lines @ concat (map (\<lambda>(k, items). kind_block k items) d)"
  by (induction d arbitrary: lines) (auto simp: kind_block_def append_items_eq)

lemma kept_buckets_append:
  "\<forall>p \<in> set pre. \<exists>loc. get_bucket_location w r (Name p) = Inr loc \<Longrightarrow>
   kept_buckets w r (pre @ rest) = kept_buckets w r pre @ kept_buckets w r rest"
  by (induction pre) auto

lemma kept_buckets_answered:
  "\<forall>p \<in> set pre. \<exists>loc. get_bucket_location w r (Name p) = Inr loc \<Longrightarrow>
   kept_buckets w r pre =
     map Name (filter (\<lambda>q. get_bucket_location w r (Name q) = Inr (Some r) \<or>
                          (get_bucket_location w r (Name q) = Inr None \<and> r = ''us-east-1''))
                 pre)"
  by (induction pre) (auto simp: keeps_def)

lemma kept_buckets_keeps:
  "n \<in> set (kept_buckets w r bs) \<Longrightarrow>
   n \<in> Name ` set bs \<and> (\<exists>loc. get_bucket_location w r n = Inr loc \<and> keeps r loc)"
proof (induction bs)
  case Nil
  then show ?case by simp
next
  case (Cons a bs)
  show ?case
  proof (cases "get_bucket_location w r (Name a)")
    case (Inl e)
    then show ?thesis using Cons.prems by simp
  next
    case (Inr loc)
    show ?thesis
    proof (cases "n = Name a \<and> keeps r loc")
      case True
      then show ?thesis using Inr by auto
    next
      case False
      then have "n \<in> set (kept_buckets w r bs)"
        using Cons.prems Inr by (auto split: if_splits)
      then show ?thesis using Cons.IH by auto
    qed
  qed
qed

lemma keeps_governing: "keeps r loc \<longleftrightarrow> governing_region loc = r"
  by (auto simp: keeps_def governing_region_def split: option.splits)

lemma inventory_lookup:
  assumes "get_all_resources w = (cs, Inr m)" and "describe_regions w = Inr rs"
  shows "map_of m r =
           (if r \<in> RegionName ` set rs \<and> r \<noteq> ''ALL'' then Some (region_items w r) else None)"
  using get_all_resources_Inr(1) [OF assms] by (simp add: map_of_store_all)

lemma inventory_bucket_items:
  assumes "get_all_resources w = (cs, Inr m)" and "describe_regions w = Inr rs"
  shows "items_at m r ''S3Buckets'' =
           (if r \<in> RegionName ` set rs \<and> r \<noteq> ''ALL'' then Some (bucket_items w r) else None)"
  using inventory_lookup [OF assms, of r]
  by (simp add: items_at_def region_items_def map_of_region_dict)

lemma only_europe_run: "snd (get_all_resources only_europe) = Inr [(''eu-west-1'', demo_eu)]"
  by code_simp

lemma client_errors_only_region:
  assumes "client_errors_only w"
  shows "region_exn w r = None"
proof -
  have h: "handled (describe_instances w r)" "handled (describe_volumes w r)"
    "handled (describe_snapshots w r)" "handled (describe_security_groups w r)"
    "handled (list_buckets w r)" "handled (describe_db_instances w r)"
    and l: "\<And>b. handled (get_bucket_location w r b)"
    using assms by (simp_all add: client_errors_only_def)
  have e: "uncaught (ec2_exn w r) = None"
    using h(1-4) by (simp add: ec2_exn_def uncaught_def handled_def split: sum.splits)
  have b: "uncaught (buckets_exn w r bs) = None" for bs
  proof (induction bs)
    case Nil
    show ?case by (simp add: uncaught_def)
  next
    case (Cons a bs)
    then show ?case
      using l [of "Name a"] by (simp add: uncaught_def handled_def split: sum.splits)
  qed
  have s: "uncaught (s3_exn w r) = None"
    using h(5) b by (simp add: s3_exn_def uncaught_def handled_def split: sum.splits)
  have d: "uncaught (rds_exn w r) = None"
    using h(6) by (simp add: rds_exn_def uncaught_def handled_def split: sum.splits)
  show ?thesis
    using e s d by (simp add: region_exn_None)
qed

lemma client_errors_only_returns:
  assumes "client_errors_only w" and "describe_regions w = Inr rs"
  shows "\<exists>cs m. get_all_resources w = (cs, Inr m)"
proof -
  have "first_exn w (map RegionName rs) = None"
    unfolding first_exn_None using client_errors_only_region [OF assms(1)] by simp
  then have "snd (get_all_resources w) = Inr (store_all w (map RegionName rs) [])"
    using snd_get_all_resources [OF assms(2)] by simp
  then show ?thesis
    by (metis prod.collapse)
qed

lemma partial_failures_run:
  "snd (get_all_resources partial_failures) = Inr partial_inventory"
  by code_simp

lemma kept_buckets_interrupted:
  assumes "\<forall>q \<in> set pre. \<exists>loc. get_bucket_location w r (Name q) = Inr loc"
    and "get_bucket_location w r (Name p) = Inl e"
  shows "kept_buckets w r (pre @ p # post) =
           map Name (filter (\<lambda>q. get_bucket_location w r (Name q) = Inr (Some r) \<or>
                                (get_bucket_location w r (Name q) = Inr None \<and> r = ''us-east-1''))
                       pre)"
  using kept_buckets_append [OF assms(1), of "p # post"] kept_buckets_answered [OF assms(1)]
    assms(2)
  by simp

lemma eu_listing_denied_run:
  "snd (get_all_resources (fail_probe Bucket ''eu-west-1'' demo_account)) =
     Inr eu_listing_denied_inventory"
  by code_simp

lemma join_lines_Cons: "join_lines (l # ls) = l @ concat (map (\<lambda>m. CHR 0x0A # m) ls)"
  by (induction ls arbitrary: l) simp_all

lemma item_lines_text:
  "concat (map (\<lambda>item. CHR 0x0A # f item) items) @ [CHR 0x0A] =
     CHR 0x0A # concat (map (\<lambda>item. f item @ [CHR 0x0A]) items)"
  by (induction items) simp_all

lemma kind_block_text:
  "concat (map (\<lambda>m. CHR 0x0A # m) (kind_block kind items)) = CHR 0x0A # kind_text kind items"
  using item_lines_text [of "\<lambda>item. ''  - '' @ item" items]
  by (simp add: kind_block_def kind_text_def comp_def)

lemma kept_buckets_first_failure:
  "\<not> (\<forall>q \<in> set bs. \<exists>loc. get_bucket_location w r (Name q) = Inr loc) \<Longrightarrow>
   \<exists>pre p post e. bs = pre @ p # post \<and>
      (\<forall>q \<in> set pre. \<exists>loc. get_bucket_location w r (Name q) = Inr loc) \<and>
      get_bucket_location w r (Name p) = Inl e"
proof (induction bs)
  case Nil
  then show ?case by simp
next
  case (Cons a bs)
  show ?case
  proof (cases "get_bucket_location w r (Name a)")
    case (Inl e)
    then have "a # bs = [] @ a # bs \<and>
        (\<forall>q \<in> set []. \<exists>loc. get_bucket_location w r (Name q) = Inr loc) \<and>
        get_bucket_location w r (Name a) = Inl e"
      by simp
    then show ?thesis by blast
  next
    case (Inr loc)
    then have "\<not> (\<forall>q \<in> set bs. \<exists>loc. get_bucket_location w r (Name q) = Inr loc)"
      using Cons.prems by auto
    then obtain pre p post e where "bs = pre @ p # post"
      "\<forall>q \<in> set pre. \<exists>loc. get_bucket_location w r (Name q) = Inr loc"
      "get_bucket_location w r (Name p) = Inl e"
      using Cons.IH by blast
    then have "a # bs = (a # pre) @ p # post \<and>
        (\<forall>q \<in> set (a # pre). \<exists>loc. get_bucket_location w r (Name q) = Inr loc) \<and>
        get_bucket_location w r (Name p) = Inl e"
      using Inr by simp
    then show ?thesis by blast
  qed
qed

section \<open>The properties\<close>

subsection \<open>C1: how often the buckets are listed\<close>

text \<open>
  C1 says that a run lists the buckets exactly once, whatever the number of regions,
  and that every region uses that one listing. The program lists the buckets inside the
  loop over the regions (lines 68-70). C1, as the program has it: a run that returns
  has listed the buckets once for every discovered region (every listed name other
  than \<open>ALL\<close>, counted as often as it is listed), and not at all when the region
  listing failed; and the buckets stored for a region are computed from the response to
  the listing issued while that region was enumerated: none when that listing failed,
  otherwise those of its buckets that the loop of lines 71-74 keeps for the region.
\<close>

theorem list_buckets_once_per_region:
  assumes "get_all_resources w = (cs, Inr m)"
  shows "count_list cs ListBuckets =
           (case describe_regions w of
              Inl e \<Rightarrow> 0
            | Inr rs \<Rightarrow> length (filter (\<lambda>r. RegionName r \<noteq> ''ALL'') rs)) \<and>
         (\<forall>r ys. items_at m r ''S3Buckets'' = Some ys \<longrightarrow>
            ys = (case list_buckets w r of
                    Inl e \<Rightarrow> []
                  | Inr bs \<Rightarrow> kept_buckets w r bs))"
proof (cases "describe_regions w")
  case (Inl e)
  then have "cs = [DescribeRegions]" "m = []"
    using assms by (simp_all add: get_all_resources_def discover_regions_def split: if_splits)
  then show ?thesis
    using Inl by (simp add: items_at_def)
next
  case (Inr rs)
  have "count_list cs ListBuckets = length (filter (\<lambda>r. RegionName r \<noteq> ''ALL'') rs)"
    using get_all_resources_Inr(3) [OF assms Inr] by (simp add: filter_map comp_def)
  moreover have "ys = (case list_buckets w r of Inl e \<Rightarrow> [] | Inr bs \<Rightarrow> kept_buckets w r bs)"
    if "items_at m r ''S3Buckets'' = Some ys" for r ys
    using that inventory_bucket_items [OF assms Inr, of r]
    by (simp add: bucket_items_def split: if_splits)
  ultimately show ?thesis
    using Inr by simp
qed

text \<open>
  The example account has two regions, and its run lists the buckets twice. When the
  listing fails while \<open>eu-west-1\<close> is enumerated, that region has no bucket and
  \<open>us-east-1\<close> has the bucket of its own listing.
\<close>

theorem list_buckets_once_per_region_witness:
  "get_all_resources demo_account = (demo_calls, Inr demo_inventory) \<and>
   describe_regions demo_account =
     Inr [\<lparr>RegionName = ''us-east-1''\<rparr>, \<lparr>RegionName = ''eu-west-1''\<rparr>] \<and>
   count_list demo_calls ListBuckets = 2 \<and>
   snd (get_all_resources (fail_probe Bucket ''eu-west-1'' demo_account)) =
     Inr eu_listing_denied_inventory \<and>
   list_buckets (fail_probe Bucket ''eu-west-1'' demo_account) ''eu-west-1'' = Inl ClientError \<and>
   items_at eu_listing_denied_inventory ''eu-west-1'' ''S3Buckets'' = Some [] \<and>
   list_buckets (fail_probe Bucket ''eu-west-1'' demo_account) ''us-east-1'' =
     Inr [\<lparr>Name = ''logs''\<rparr>, \<lparr>Name = ''assets''\<rparr>, \<lparr>Name = ''backup''\<rparr>] \<and>
   items_at eu_listing_denied_inventory ''us-east-1'' ''S3Buckets'' = Some [''logs'']"
proof -
  let ?w = "fail_probe Bucket ''eu-west-1'' demo_account"
  have run: "get_all_resources ?w = (fst (get_all_resources ?w), Inr eu_listing_denied_inventory)"
    using eu_listing_denied_run by (metis prod.collapse)
  have eu: "list_buckets ?w ''eu-west-1'' = Inl ClientError"
    and us: "list_buckets ?w ''us-east-1'' =
      Inr [\<lparr>Name = ''logs''\<rparr>, \<lparr>Name = ''assets''\<rparr>, \<lparr>Name = ''backup''\<rparr>]"
    by (simp_all add: demo_account_def)
  have ie: "items_at eu_listing_denied_inventory ''eu-west-1'' ''S3Buckets'' = Some []"
    and iu: "items_at eu_listing_denied_inventory ''us-east-1'' ''S3Buckets'' = Some [''logs'']"
    by (simp_all add: items_at_def eu_listing_denied_inventory_def demo_us_def)
  have "count_list demo_calls ListBuckets = 2"
    using list_buckets_once_per_region [OF demo_run] demo_regions by simp
  moreover have "[] = (case list_buckets ?w ''eu-west-1'' of
      Inl e \<Rightarrow> [] | Inr bs \<Rightarrow> kept_buckets ?w ''eu-west-1'' bs)"
    using list_buckets_once_per_region [OF run] ie by blast
  moreover have "[''logs''] = (case list_buckets ?w ''us-east-1'' of
      Inl e \<Rightarrow> [] | Inr bs \<Rightarrow> kept_buckets ?w ''us-east-1'' bs)"
    using list_buckets_once_per_region [OF run] iu by blast
  ultimately show ?thesis
    using demo_run demo_regions eu_listing_denied_run eu us ie iu by simp
qed

text \<open>C1 as stated fails on the example account: the run issues the listing twice, not once.\<close>

theorem list_buckets_twice:
  "count_list (fst (get_all_resources demo_account)) ListBuckets = 2"
  by code_simp

subsection \<open>C2: no region discovered\<close>

text \<open>
  C2 says that when no region is discovered, also because the region listing fails, the
  run returns an inventory with exactly one entry, \<open>ALL\<close>, with six empty sequences,
  and records the failure. The program returns the empty dictionary in both cases
  (line 21, and the loop that skips \<open>ALL\<close>), and keeps no record of failures.
  C2, as the program has it: when the region listing fails with \<open>ClientError\<close> or
  answers with no region, the run issues that one call and returns, without raising, an
  inventory with no entry for any region; the view that the window builds for \<open>ALL\<close>
  from it has the six kinds, all empty.
\<close>

theorem no_regions_no_entries:
  assumes "describe_regions w = Inl ClientError \<or> describe_regions w = Inr []"
  shows "\<exists>m. get_all_resources w = ([DescribeRegions], Inr m) \<and>
             (\<forall>r d. (r, d) \<in> set m \<longrightarrow> r = ''ALL'') \<and>
             combine_all m = Inr new_region_data"
  using assms
  by (auto simp: get_all_resources_def discover_regions_def combine_all_def)

text \<open>The account whose region listing is denied.\<close>

theorem no_regions_no_entries_witness:
  "describe_regions discovery_denied = Inl ClientError \<and>
   get_all_resources discovery_denied = ([DescribeRegions], Inr []) \<and>
   combine_all [] = Inr new_region_data"
proof -
  have h: "describe_regions discovery_denied = Inl ClientError"
    by (simp add: discovery_denied_def)
  obtain m where "get_all_resources discovery_denied = ([DescribeRegions], Inr m)"
    and "combine_all m = Inr new_region_data"
    using no_regions_no_entries [of discovery_denied] h by blast
  moreover have "get_all_resources discovery_denied = ([DescribeRegions], Inr [])"
    by (simp add: get_all_resources_def discover_regions_def discovery_denied_def)
  ultimately show ?thesis using h by simp
qed

text \<open>
  C2 as stated fails on that account: the run returns the empty dictionary, not a
  dictionary with the one entry \<open>ALL\<close>.
\<close>

theorem discovery_denied_no_sentinel:
  "get_all_resources discovery_denied = ([DescribeRegions], Inr []) \<and>
   snd (get_all_resources discovery_denied) \<noteq> Inr [(''ALL'', new_region_data)]"
  by (simp add: get_all_resources_def discover_regions_def discovery_denied_def)

subsection \<open>C3: one failing probe\<close>

text \<open>
  C3 says that when exactly one probe fails, for kind K in region R, the sequence
  at (R, K) is empty and every other pair of a region and a kind holds what it holds in
  the run without the failure. In the program the listings of instances, volumes,
  snapshots and security groups share one \<open>try\<close> (lines 40-65), so a failure there
  also skips the listings after it. C3, as the program has it: take any run that
  returns, and let the listing call of kind K fail with \<open>ClientError\<close> in region R.
  The run still returns, with the same regions in the same order; if R is one of them,
  the kinds of \<open>emptied K\<close> are empty in R (K itself and, when K is listed in the
  first \<open>try\<close>, the kinds listed after it there); every other pair of a region and a
  kind holds what it held before.
\<close>

theorem one_failing_probe:
  assumes run: "get_all_resources w = (cs, Inr m)"
    and regions: "describe_regions w = Inr rs"
  shows "\<exists>cs' m'. get_all_resources (fail_probe K R w) = (cs', Inr m') \<and>
           map fst m' = map fst m \<and>
           (\<forall>r k. items_at m' r (key_of k) =
              (if r = R \<and> r \<in> fst ` set m \<and> k \<in> set (emptied K) then Some []
               else items_at m r (key_of k)))"
proof -
  let ?w = "fail_probe K R w"
  let ?rs = "map RegionName rs"
  have m: "m = store_all w ?rs []" and ok: "first_exn w ?rs = None"
    using get_all_resources_Inr [OF run regions] by simp_all
  have ok': "first_exn ?w ?rs = None"
    unfolding first_exn_None
  proof (intro ballI impI)
    fix r assume "r \<in> set ?rs" "r \<noteq> ''ALL''"
    then have "region_exn w r = None"
      using ok unfolding first_exn_None by blast
    then show "region_exn ?w r = None"
      using fail_probe_exn [of w R K] fail_probe_elsewhere(2) [of r R K w]
      by (cases "r = R") simp_all
  qed
  have regions': "describe_regions ?w = Inr rs"
    using regions by (simp add: fail_probe_fixed)
  have "snd (get_all_resources ?w) = Inr (store_all ?w ?rs [])"
    using snd_get_all_resources [OF regions'] ok' by simp
  then have run': "get_all_resources ?w = (fst (get_all_resources ?w), Inr (store_all ?w ?rs []))"
    by (metis prod.collapse)
  have keys: "map fst (store_all ?w ?rs []) = map fst m"
    using store_all_map [of ?w ?rs "[]"] store_all_map [of w ?rs "[]"]
    by (simp add: m comp_def)
  have dom: "r \<in> fst ` set m \<longleftrightarrow> r \<in> set ?rs \<and> r \<noteq> ''ALL''" for r
    using store_all_map [of w ?rs "[]"]
    by (auto simp: m set_first_occurrences image_iff)
  have mw: "map_of m r = (if r \<in> set ?rs \<and> r \<noteq> ''ALL'' then Some (region_items w r) else None)"
    for r
    unfolding m by (simp add: map_of_store_all)
  have mw': "map_of (store_all ?w ?rs []) r =
      (if r \<in> set ?rs \<and> r \<noteq> ''ALL'' then Some (region_items ?w r) else None)" for r
    by (simp add: map_of_store_all)
  have items: "items_at (store_all ?w ?rs []) r (key_of k) =
      (if r = R \<and> r \<in> fst ` set m \<and> k \<in> set (emptied K) then Some []
       else items_at m r (key_of k))" for r k
  proof (cases "r \<in> set ?rs \<and> r \<noteq> ''ALL''")
    case False
    then have "r \<notin> fst ` set m"
      using dom [of r] by blast
    moreover have "map_of m r = None" "map_of (store_all ?w ?rs []) r = None"
      using False mw [of r] mw' [of r] by auto
    ultimately show ?thesis
      by (simp add: items_at_def)
  next
    case True
    then have in_m: "r \<in> fst ` set m"
      using dom [of r] by blast
    show ?thesis
    proof (cases "r = R")
      case True
      have "items_at (store_all ?w ?rs []) R (key_of k) =
          (if k \<in> set (emptied K) then Some [] else items_at m R (key_of k))"
        using \<open>r \<in> set ?rs \<and> r \<noteq> ''ALL''\<close> True fail_probe_items [of K R w k]
        by (simp add: items_at_def mw mw')
      then show ?thesis
        using True in_m by simp
    next
      case False
      then show ?thesis
        using \<open>r \<in> set ?rs \<and> r \<noteq> ''ALL''\<close> fail_probe_elsewhere(1) [of r R K w]
        by (simp add: items_at_def mw mw')
    qed
  qed
  show ?thesis
    using run' keys items by blast
qed

text \<open>
  On the example account, with the listing of snapshots failing in \<open>us-east-1\<close>: the
  security groups of that region are empty, its volumes and the security groups of
  the other region are as before.
\<close>

theorem one_failing_probe_witness:
  "get_all_resources demo_account = (demo_calls, Inr demo_inventory) \<and>
   snd (get_all_resources (fail_probe Snapshot ''us-east-1'' demo_account)) =
     Inr snapshots_denied_inventory \<and>
   map fst snapshots_denied_inventory = map fst demo_inventory \<and>
   items_at snapshots_denied_inventory ''us-east-1'' (key_of SecurityGroup) = Some [] \<and>
   items_at snapshots_denied_inventory ''us-east-1'' (key_of Volume) =
     items_at demo_inventory ''us-east-1'' (key_of Volume) \<and>
   items_at snapshots_denied_inventory ''eu-west-1'' (key_of SecurityGroup) =
     items_at demo_inventory ''eu-west-1'' (key_of SecurityGroup)"
proof -
  obtain cs' m' where
    r: "get_all_resources (fail_probe Snapshot ''us-east-1'' demo_account) = (cs', Inr m')"
    and k: "map fst m' = map fst demo_inventory"
    and i: "\<And>r k. items_at m' r (key_of k) =
      (if r = ''us-east-1'' \<and> r \<in> fst ` set demo_inventory \<and> k \<in> set (emptied Snapshot)
       then Some [] else items_at demo_inventory r (key_of k))"
    using one_failing_probe [OF demo_run demo_regions, of Snapshot "''us-east-1''"] by blast
  have m': "m' = snapshots_denied_inventory"
    using r snapshots_denied_run by simp
  have u: "''us-east-1'' \<in> fst ` set demo_inventory"
    by (simp add: demo_inventory_def)
  show ?thesis
    using demo_run snapshots_denied_run k [unfolded m']
      i [of "''us-east-1''" SecurityGroup, unfolded m']
      i [of "''us-east-1''" Volume, unfolded m']
      i [of "''eu-west-1''" SecurityGroup, unfolded m'] u
    by simp
qed

text \<open>
  C3 as stated fails on the example account when the listing of instances fails in
  \<open>us-east-1\<close>: the volumes of that region, which the run without failure holds, are
  empty.
\<close>

theorem instances_denied_blanks_volumes:
  "snd (get_all_resources demo_account) = Inr demo_inventory \<and>
   items_at demo_inventory ''us-east-1'' ''Volumes'' = Some [''vol-1''] \<and>
   snd (get_all_resources (fail_probe Instance ''us-east-1'' demo_account)) =
     Inr instances_denied_inventory \<and>
   items_at instances_denied_inventory ''us-east-1'' ''Volumes'' = Some []"
  by code_simp

subsection \<open>C4: all six kinds in every entry\<close>

text \<open>
  C4: in every inventory that a run returns, the dictionary of every region has
  exactly the six kinds as keys, in the order of the literal, and the view that the
  window builds for \<open>ALL\<close> from the inventory is built without \<open>KeyError\<close> and has
  the same six keys.
\<close>

theorem every_kind_present:
  assumes "get_all_resources w = (cs, Inr m)"
  shows "(\<forall>r d. (r, d) \<in> set m \<longrightarrow> map fst d = resource_kinds) \<and>
         (\<exists>combined. combine_all m = Inr combined \<and> map fst combined = resource_kinds)"
proof -
  obtain ks where m: "m = map (\<lambda>r. (r, region_items w r)) ks" and ks: "''ALL'' \<notin> set ks"
    using inventory_shape [OF assms] by blast
  have "\<forall>r d. (r, d) \<in> set m \<longrightarrow> map fst d = resource_kinds"
    by (auto simp: m region_items_def keys_region_dict)
  moreover have "\<exists>combined. combine_all m = Inr combined \<and> map fst combined = resource_kinds"
    unfolding combine_all_def new_region_data_rd m
    by (simp add: combine_loop_regions [OF ks] keys_region_dict)
  ultimately show ?thesis by blast
qed

text \<open>
  The example account: the entry of \<open>eu-west-1\<close> and the view for \<open>ALL\<close>.
\<close>

theorem every_kind_present_witness:
  "get_all_resources demo_account = (demo_calls, Inr demo_inventory) \<and>
   (''eu-west-1'', demo_eu) \<in> set demo_inventory \<and>
   map fst demo_eu = resource_kinds \<and>
   combine_all demo_inventory = Inr demo_combined \<and>
   map fst demo_combined = resource_kinds"
proof -
  have e: "(''eu-west-1'', demo_eu) \<in> set demo_inventory"
    by (simp add: demo_inventory_def)
  have "map fst demo_eu = resource_kinds"
    using every_kind_present [OF demo_run] e by blast
  moreover have "map fst demo_combined = resource_kinds"
    using every_kind_present [OF demo_run] demo_combine by auto
  ultimately show ?thesis
    using demo_run e demo_combine by simp
qed

subsection \<open>C5: the view for ALL is the concatenation\<close>

text \<open>
  C5: for every run that returns and every kind, the regions of the inventory are
  the discovered regions, each once, in the order of their first listing; every one of
  them has a sequence for the kind; and the view that the window builds for \<open>ALL\<close>
  holds, for the kind, the concatenation of these sequences in that order.
\<close>

theorem all_view_concatenates:
  assumes "get_all_resources w = (cs, Inr m)" and "describe_regions w = Inr rs"
  shows "\<exists>combined xss.
           combine_all m = Inr combined \<and>
           map fst m = first_occurrences [] (filter (\<lambda>r. r \<noteq> ''ALL'') (map RegionName rs)) \<and>
           map (\<lambda>(r, d). map_of d (key_of k)) m = map Some xss \<and>
           map_of combined (key_of k) = Some (concat xss)"
proof -
  let ?ks = "first_occurrences [] (filter (\<lambda>r. r \<noteq> ''ALL'') (map RegionName rs))"
  have m: "m = map (\<lambda>r. (r, region_items w r)) ?ks"
    using inventory_regions [OF assms] .
  have ks: "''ALL'' \<notin> set ?ks"
    by (simp add: set_first_occurrences)
  let ?combined = "region_dict (concat (map (inst_items w) ?ks)) (concat (map (vol_items w) ?ks))
      (concat (map (snap_items w) ?ks)) (concat (map (sg_items w) ?ks))
      (concat (map (bucket_items w) ?ks)) (concat (map (rds_items w) ?ks))"
  have c: "combine_all m = Inr ?combined"
    unfolding combine_all_def new_region_data_rd m
    by (simp add: combine_loop_regions [OF ks])
  have keys: "map fst m = ?ks"
    unfolding m by (simp add: comp_def)
  have each: "map (\<lambda>(r, d). map_of d (key_of k)) m = map Some (map (kind_items w k) ?ks)"
    unfolding m by (simp add: comp_def map_of_region_items)
  have total: "map_of ?combined (key_of k) = Some (concat (map (kind_items w k) ?ks))"
    by (cases k) (simp_all add: map_of_region_dict cong: map_cong)
  show ?thesis
    using c keys each total by blast
qed

text \<open>
  The buckets of the example account: first \<open>logs\<close>, then \<open>assets\<close>.
\<close>

theorem all_view_concatenates_witness:
  "get_all_resources demo_account = (demo_calls, Inr demo_inventory) \<and>
   combine_all demo_inventory = Inr demo_combined \<and>
   map fst demo_inventory = [''us-east-1'', ''eu-west-1''] \<and>
   map (\<lambda>(r, d). map_of d (key_of Bucket)) demo_inventory =
     map Some [[''logs''], [''assets'']] \<and>
   map_of demo_combined (key_of Bucket) = Some (concat [[''logs''], [''assets'']])"
proof -
  obtain combined xss where c: "combine_all demo_inventory = Inr combined"
    and k: "map fst demo_inventory =
      first_occurrences [] (filter (\<lambda>r. r \<noteq> ''ALL'')
        (map RegionName [\<lparr>RegionName = ''us-east-1''\<rparr>, \<lparr>RegionName = ''eu-west-1''\<rparr>]))"
    and e: "map (\<lambda>(r, d). map_of d (key_of Bucket)) demo_inventory = map Some xss"
    and t: "map_of combined (key_of Bucket) = Some (concat xss)"
    using all_view_concatenates [OF demo_run demo_regions, of Bucket] by blast
  have "combined = demo_combined"
    using c demo_combine by simp
  moreover have "map (\<lambda>(r, d). map_of d (key_of Bucket)) demo_inventory =
      map Some [[''logs''], [''assets'']]"
    by (simp add: demo_inventory_def demo_us_def demo_eu_def)
  then have "map Some xss = map Some [[''logs''], [''assets'']]"
    using e by simp
  then have "xss = [[''logs''], [''assets'']]"
    by (simp only: inj_map_eq_map [OF inj_Some])
  moreover have "map fst demo_inventory = [''us-east-1'', ''eu-west-1'']"
    using k by simp
  ultimately show ?thesis
    using demo_run demo_combine e t by simp
qed

subsection \<open>C6: buckets without location\<close>

text \<open>
  C6 says that every listed bucket without location is in the inventory of
  \<open>us-east-1\<close>, once, and in no other region. The program places a bucket only while
  it enumerates a region (line 73), and leaves the loop over the buckets at the first
  location lookup that fails (lines 71-76). C6, as the program has it: let a run
  return, with \<open>us-east-1\<close> among the discovered regions; let the listing issued
  while \<open>us-east-1\<close> is enumerated answer with the bucket, its name occurring once,
  and let the location lookups of the buckets listed before it answer; let the bucket
  have no location in any lookup. Then its name occurs exactly once among the buckets of
  \<open>us-east-1\<close>, and not among the buckets of any other region.
\<close>

theorem default_region_bucket:
  assumes run: "get_all_resources w = (cs, Inr m)"
    and regions: "describe_regions w = Inr rs"
    and default: "''us-east-1'' \<in> RegionName ` set rs"
    and listing: "list_buckets w ''us-east-1'' = Inr (pre @ b # post)"
    and before: "\<forall>p \<in> set pre. \<exists>loc. get_bucket_location w ''us-east-1'' (Name p) = Inr loc"
    and once: "Name b \<notin> Name ` set pre" "Name b \<notin> Name ` set post"
    and absent: "\<forall>r. get_bucket_location w r (Name b) = Inr None"
  shows "\<exists>xs. items_at m ''us-east-1'' ''S3Buckets'' = Some xs \<and>
              count_list xs (Name b) = 1 \<and>
              (\<forall>r ys. r \<noteq> ''us-east-1'' \<longrightarrow> items_at m r ''S3Buckets'' = Some ys \<longrightarrow>
                      Name b \<notin> set ys)"
proof -
  let ?us = "''us-east-1''"
  have here: "items_at m ?us ''S3Buckets'' = Some (bucket_items w ?us)"
    using inventory_bucket_items [OF run regions, of ?us] default by simp
  have kept: "bucket_items w ?us =
      kept_buckets w ?us pre @ [Name b] @ kept_buckets w ?us post"
    using listing absent kept_buckets_append [OF before, of "b # post"]
    by (simp add: bucket_items_def keeps_def)
  have "Name b \<notin> set (kept_buckets w ?us pre)" "Name b \<notin> set (kept_buckets w ?us post)"
    using once kept_buckets_keeps by blast+
  then have count: "count_list (bucket_items w ?us) (Name b) = 1"
    by (simp add: kept)
  have others: "Name b \<notin> set ys" if "r \<noteq> ?us" "items_at m r ''S3Buckets'' = Some ys" for r ys
  proof
    assume "Name b \<in> set ys"
    moreover have "ys = bucket_items w r"
      using that(2) inventory_bucket_items [OF run regions, of r] by (simp split: if_splits)
    ultimately have "Name b \<in> set (kept_buckets w r (case list_buckets w r of Inr bs \<Rightarrow> bs | Inl e \<Rightarrow> []))"
      by (simp add: bucket_items_def split: sum.splits)
    then obtain loc where "get_bucket_location w r (Name b) = Inr loc" "keeps r loc"
      using kept_buckets_keeps by blast
    then show False
      using absent that(1) by (simp add: keeps_def)
  qed
  show ?thesis
    using here count others by blast
qed

text \<open>The bucket \<open>logs\<close> of the example account.\<close>

theorem default_region_bucket_witness:
  "get_all_resources demo_account = (demo_calls, Inr demo_inventory) \<and>
   list_buckets demo_account ''us-east-1'' =
     Inr ([] @ \<lparr>Name = ''logs''\<rparr> # [\<lparr>Name = ''assets''\<rparr>, \<lparr>Name = ''backup''\<rparr>]) \<and>
   get_bucket_location demo_account ''eu-west-1'' ''logs'' = Inr None \<and>
   items_at demo_inventory ''us-east-1'' ''S3Buckets'' = Some [''logs''] \<and>
   count_list [''logs''] ''logs'' = 1 \<and>
   items_at demo_inventory ''eu-west-1'' ''S3Buckets'' = Some [''assets''] \<and>
   ''logs'' \<notin> set [''assets'']"
proof -
  have l: "list_buckets demo_account ''us-east-1'' =
      Inr ([] @ \<lparr>Name = ''logs''\<rparr> # [\<lparr>Name = ''assets''\<rparr>, \<lparr>Name = ''backup''\<rparr>])"
    by (simp add: demo_account_def)
  have d: "''us-east-1'' \<in> RegionName ` set [\<lparr>RegionName = ''us-east-1''\<rparr>, \<lparr>RegionName = ''eu-west-1''\<rparr>]"
    by simp
  have a: "\<forall>r. get_bucket_location demo_account r (Name \<lparr>Name = ''logs''\<rparr>) = Inr None"
    by (simp add: demo_account_def)
  obtain xs where x: "items_at demo_inventory ''us-east-1'' ''S3Buckets'' = Some xs"
    and c: "count_list xs ''logs'' = 1"
    and o: "\<And>r ys. r \<noteq> ''us-east-1'' \<Longrightarrow> items_at demo_inventory r ''S3Buckets'' = Some ys \<Longrightarrow>
                ''logs'' \<notin> set ys"
    using default_region_bucket [OF demo_run demo_regions d l _ _ _ a] by auto
  have u: "items_at demo_inventory ''us-east-1'' ''S3Buckets'' = Some [''logs'']"
    and e: "items_at demo_inventory ''eu-west-1'' ''S3Buckets'' = Some [''assets'']"
    by (simp_all add: items_at_def demo_inventory_def demo_us_def demo_eu_def)
  have "xs = [''logs'']"
    using x u by simp
  then show ?thesis
    using demo_run l a [rule_format, of "''eu-west-1''"] u e c o [OF _ e] by simp
qed

text \<open>
  C6 as stated fails in two ways. When \<open>us-east-1\<close> is not discovered, the bucket
  \<open>logs\<close>, which has no location, is in no inventory: there is none for
  \<open>us-east-1\<close>. When the location of a bucket listed before it cannot be read, the
  buckets of \<open>us-east-1\<close> are empty, although \<open>logs\<close> is listed and has no location.
\<close>

theorem default_bucket_missing:
  "describe_regions only_europe = Inr [\<lparr>RegionName = ''eu-west-1''\<rparr>] \<and>
   list_buckets only_europe ''eu-west-1'' =
     Inr [\<lparr>Name = ''logs''\<rparr>, \<lparr>Name = ''assets''\<rparr>, \<lparr>Name = ''backup''\<rparr>] \<and>
   get_bucket_location only_europe ''eu-west-1'' ''logs'' = Inr None \<and>
   snd (get_all_resources only_europe) = Inr [(''eu-west-1'', demo_eu)] \<and>
   items_at [(''eu-west-1'', demo_eu)] ''us-east-1'' ''S3Buckets'' = None \<and>
   items_at [(''eu-west-1'', demo_eu)] ''eu-west-1'' ''S3Buckets'' = Some [''assets''] \<and>
   list_buckets first_lookup_denied ''us-east-1'' =
     Inr [\<lparr>Name = ''backup''\<rparr>, \<lparr>Name = ''logs''\<rparr>] \<and>
   get_bucket_location first_lookup_denied ''us-east-1'' ''logs'' = Inr None \<and>
   snd (get_all_resources first_lookup_denied) = Inr first_lookup_denied_inventory \<and>
   items_at first_lookup_denied_inventory ''us-east-1'' ''S3Buckets'' = Some []"
  by code_simp

subsection \<open>C7: the discovered regions\<close>

text \<open>
  C7 says that region discovery returns the region identifiers of the provider
  deduplicated, in the order supplied, unsorted. The program takes the names as they
  come (line 18) and removes nothing. C7, as the program has it: when the region listing
  answers, discovery issues that one call and returns as many names as there are
  entries, the name of each entry at the place of the entry.
\<close>

theorem regions_as_supplied:
  assumes "describe_regions w = Inr rs"
  shows "\<exists>regions. discover_regions w = ([DescribeRegions], Inr (Some regions)) \<and>
           length regions = length rs \<and>
           (\<forall>i. i < length rs \<longrightarrow> regions ! i = RegionName (rs ! i))"
  using assms by (simp add: discover_regions_def)

text \<open>The two regions of the example account.\<close>

theorem regions_as_supplied_witness:
  "describe_regions demo_account =
     Inr [\<lparr>RegionName = ''us-east-1''\<rparr>, \<lparr>RegionName = ''eu-west-1''\<rparr>] \<and>
   discover_regions demo_account =
     ([DescribeRegions], Inr (Some [''us-east-1'', ''eu-west-1'']))"
proof -
  obtain regions where d: "discover_regions demo_account = ([DescribeRegions], Inr (Some regions))"
    and l: "length regions = 2"
    and n: "\<forall>i. i < 2 \<longrightarrow> regions ! i =
              RegionName ([\<lparr>RegionName = ''us-east-1''\<rparr>, \<lparr>RegionName = ''eu-west-1''\<rparr>] ! i)"
    using regions_as_supplied [OF demo_regions] by auto
  have "regions ! 0 = ''us-east-1''" "regions ! 1 = ''eu-west-1''"
    using n by auto
  then have "regions = [''us-east-1'', ''eu-west-1'']"
    using l by (auto simp: list_eq_iff_nth_eq less_Suc_eq numeral_2_eq_2)
  then show ?thesis using d demo_regions by simp
qed

text \<open>C7 as stated fails when the provider names a region twice: discovery returns it twice.\<close>

theorem repeated_regions_kept:
  "discover_regions repeated_regions =
     ([DescribeRegions], Inr (Some [''us-east-1'', ''us-east-1''])) \<and>
   \<not> distinct [''us-east-1'', ''us-east-1'']"
  by (simp add: discover_regions_def repeated_regions_def)

subsection \<open>C8: the formatter\<close>

text \<open>
  C8: the formatter is a function of the region and the dictionary. For a dictionary
  with the six kinds in the order of the literal, its text is: the title line and an
  empty line, then for each kind in that order a header line, then the marker
  \<open>(none)\<close> on a line when the kind has no item and otherwise one line per item in
  the stored order; an empty line separates a kind from the next.
\<close>

theorem format_by_kind:
  assumes "map fst d = resource_kinds"
  shows "\<exists>i v s g b x.
           d = [(''Instances'', i), (''Volumes'', v), (''Snapshots'', s),
                (''SecurityGroups'', g), (''S3Buckets'', b), (''RDSInstances'', x)] \<and>
           format_region_data region d =
             ''Resources in region: '' @ region @ [CHR 0x0A, CHR 0x0A] @
             kind_text ''Instances'' i @ [CHR 0x0A] @
             kind_text ''Volumes'' v @ [CHR 0x0A] @
             kind_text ''Snapshots'' s @ [CHR 0x0A] @
             kind_text ''SecurityGroups'' g @ [CHR 0x0A] @
             kind_text ''S3Buckets'' b @ [CHR 0x0A] @
             kind_text ''RDSInstances'' x"
proof -
  obtain i v s g b x where d:
    "d = [(''Instances'', i), (''Volumes'', v), (''Snapshots'', s),
          (''SecurityGroups'', g), (''S3Buckets'', b), (''RDSInstances'', x)]"
    using assms unfolding resource_kinds_def
    by (auto simp: map_eq_Cons_conv)
  have "format_region_data region d =
      (''Resources in region: '' @ region @ [CHR 0x0A]) @
      concat (map (\<lambda>m. CHR 0x0A # m) (concat (map (\<lambda>(k, items). kind_block k items) d)))"
    unfolding format_region_data_def format_loop_eq by (simp add: join_lines_Cons)
  also have "\<dots> =
      ''Resources in region: '' @ region @ [CHR 0x0A, CHR 0x0A] @
      kind_text ''Instances'' i @ [CHR 0x0A] @ kind_text ''Volumes'' v @ [CHR 0x0A] @
      kind_text ''Snapshots'' s @ [CHR 0x0A] @ kind_text ''SecurityGroups'' g @ [CHR 0x0A] @
      kind_text ''S3Buckets'' b @ [CHR 0x0A] @ kind_text ''RDSInstances'' x"
    unfolding d by (simp add: kind_block_text)
  finally show ?thesis
    using d by blast
qed

text \<open>The text for \<open>eu-west-1\<close> of the example account.\<close>

theorem format_by_kind_witness:
  "map fst demo_eu = resource_kinds \<and>
   format_region_data ''eu-west-1'' demo_eu =
     ''Resources in region: eu-west-1'' @ [CHR 0x0A, CHR 0x0A] @
     ''Instances:'' @ [CHR 0x0A] @ ''  - (none)'' @ [CHR 0x0A, CHR 0x0A] @
     ''Volumes:'' @ [CHR 0x0A] @ ''  - (none)'' @ [CHR 0x0A, CHR 0x0A] @
     ''Snapshots:'' @ [CHR 0x0A] @ ''  - (none)'' @ [CHR 0x0A, CHR 0x0A] @
     ''SecurityGroups:'' @ [CHR 0x0A] @ ''  - web (sg-1)'' @ [CHR 0x0A, CHR 0x0A] @
     ''S3Buckets:'' @ [CHR 0x0A] @ ''  - assets'' @ [CHR 0x0A, CHR 0x0A] @
     ''RDSInstances:'' @ [CHR 0x0A] @ ''  - (none)'' @ [CHR 0x0A]"
proof -
  have k: "map fst demo_eu = resource_kinds"
    by (simp add: demo_eu_def resource_kinds_def)
  obtain i v s g b x where
    d: "demo_eu = [(''Instances'', i), (''Volumes'', v), (''Snapshots'', s),
                (''SecurityGroups'', g), (''S3Buckets'', b), (''RDSInstances'', x)]"
    and f: "format_region_data ''eu-west-1'' demo_eu =
             ''Resources in region: '' @ ''eu-west-1'' @ [CHR 0x0A, CHR 0x0A] @
             kind_text ''Instances'' i @ [CHR 0x0A] @
             kind_text ''Volumes'' v @ [CHR 0x0A] @
             kind_text ''Snapshots'' s @ [CHR 0x0A] @
             kind_text ''SecurityGroups'' g @ [CHR 0x0A] @
             kind_text ''S3Buckets'' b @ [CHR 0x0A] @
             kind_text ''RDSInstances'' x"
    using format_by_kind [OF k, of "''eu-west-1''"] by blast
  have "i = [] \<and> v = [] \<and> s = [] \<and> g = [''web (sg-1)''] \<and> b = [''assets''] \<and> x = []"
    using d by (simp add: demo_eu_def)
  then show ?thesis
    using k f by (simp add: kind_text_def)
qed

subsection \<open>C9: what was collected before a failure stays\<close>

text \<open>
  C9 says that in every region where a service call fails partway, what was appended
  before the failing call is retained and the region is in the returned inventory with
  its six kinds. The program catches \<open>ClientError\<close> only (lines 63, 75, 86): an
  exception of another class leaves the function. C9, as the program has it: when
  service calls fail with \<open>ClientError\<close> only, the run returns, every discovered
  region other than \<open>ALL\<close> has an entry with the six kinds, and the entry holds
  exactly what was appended before any failing call. Of the four kinds of the first
  \<open>try\<close>, a kind holds the items of its listing when that listing and the listings
  before it answered, and nothing otherwise. The buckets are none when their listing
  failed, those kept of the whole listing when every location lookup answered, and those
  kept before the first lookup that fails otherwise. The database instances are those of
  their listing, or none when it failed.
\<close>

theorem partial_results_retained:
  assumes handled: "client_errors_only w"
    and regions: "describe_regions w = Inr rs"
    and discovered: "r \<in> RegionName ` set rs" "r \<noteq> ''ALL''"
  shows "\<exists>cs m i v s g b x.
           get_all_resources w = (cs, Inr m) \<and>
           map_of m r =
             Some [(''Instances'', i), (''Volumes'', v), (''Snapshots'', s),
                   (''SecurityGroups'', g), (''S3Buckets'', b), (''RDSInstances'', x)] \<and>
           (\<forall>res. describe_instances w r = Inr res \<longrightarrow>
              i = concat (map (\<lambda>y. map InstanceId (Instances y)) res)) \<and>
           (\<forall>res vs. describe_instances w r = Inr res \<longrightarrow> describe_volumes w r = Inr vs \<longrightarrow>
              v = map VolumeId vs) \<and>
           (\<forall>res vs ss. describe_instances w r = Inr res \<longrightarrow> describe_volumes w r = Inr vs \<longrightarrow>
              describe_snapshots w r = Inr ss \<longrightarrow> s = map SnapshotId ss) \<and>
           (\<forall>res vs ss gs. describe_instances w r = Inr res \<longrightarrow>
              describe_volumes w r = Inr vs \<longrightarrow> describe_snapshots w r = Inr ss \<longrightarrow>
              describe_security_groups w r = Inr gs \<longrightarrow> g = map sg_item gs) \<and>
           (\<forall>e. describe_instances w r = Inl e \<longrightarrow> i = [] \<and> v = [] \<and> s = [] \<and> g = []) \<and>
           (\<forall>e. describe_volumes w r = Inl e \<longrightarrow> v = [] \<and> s = [] \<and> g = []) \<and>
           (\<forall>e. describe_snapshots w r = Inl e \<longrightarrow> s = [] \<and> g = []) \<and>
           (\<forall>e. describe_security_groups w r = Inl e \<longrightarrow> g = []) \<and>
           (\<forall>e. list_buckets w r = Inl e \<longrightarrow> b = []) \<and>
           (\<forall>bs. list_buckets w r = Inr bs \<longrightarrow>
              (\<forall>q \<in> set bs. \<exists>loc. get_bucket_location w r (Name q) = Inr loc) \<longrightarrow>
              b = map Name
                    (filter (\<lambda>q. get_bucket_location w r (Name q) = Inr (Some r) \<or>
                                 (get_bucket_location w r (Name q) = Inr None \<and>
                                  r = ''us-east-1''))
                       bs)) \<and>
           (\<forall>pre p post. list_buckets w r = Inr (pre @ p # post) \<longrightarrow>
              (\<forall>q \<in> set pre. \<exists>loc. get_bucket_location w r (Name q) = Inr loc) \<longrightarrow>
              get_bucket_location w r (Name p) = Inl ClientError \<longrightarrow>
              b = map Name
                    (filter (\<lambda>q. get_bucket_location w r (Name q) = Inr (Some r) \<or>
                                 (get_bucket_location w r (Name q) = Inr None \<and>
                                  r = ''us-east-1''))
                       pre)) \<and>
           (\<forall>ds. describe_db_instances w r = Inr ds \<longrightarrow> x = map db_item ds) \<and>
           (\<forall>e. describe_db_instances w r = Inl e \<longrightarrow> x = [])"
proof -
  obtain cs m where run: "get_all_resources w = (cs, Inr m)"
    using client_errors_only_returns [OF handled regions] by blast
  let ?i = "inst_items w r" and ?v = "vol_items w r" and ?s = "snap_items w r"
    and ?g = "sg_items w r" and ?b = "bucket_items w r" and ?x = "rds_items w r"
  have l: "map_of m r =
      Some [(''Instances'', ?i), (''Volumes'', ?v), (''Snapshots'', ?s),
            (''SecurityGroups'', ?g), (''S3Buckets'', ?b), (''RDSInstances'', ?x)]"
    using inventory_lookup [OF run regions, of r] discovered
    by (simp add: region_items_def region_dict_def)
  have i: "\<forall>res. describe_instances w r = Inr res \<longrightarrow>
      ?i = concat (map (\<lambda>y. map InstanceId (Instances y)) res)"
    by (simp add: inst_items_def)
  have v: "\<forall>res vs. describe_instances w r = Inr res \<longrightarrow> describe_volumes w r = Inr vs \<longrightarrow>
      ?v = map VolumeId vs"
    by (simp add: vol_items_def)
  have s: "\<forall>res vs ss. describe_instances w r = Inr res \<longrightarrow> describe_volumes w r = Inr vs \<longrightarrow>
      describe_snapshots w r = Inr ss \<longrightarrow> ?s = map SnapshotId ss"
    by (simp add: snap_items_def)
  have g: "\<forall>res vs ss gs. describe_instances w r = Inr res \<longrightarrow>
      describe_volumes w r = Inr vs \<longrightarrow> describe_snapshots w r = Inr ss \<longrightarrow>
      describe_security_groups w r = Inr gs \<longrightarrow> ?g = map sg_item gs"
    by (simp add: sg_items_def)
  have i0: "\<forall>e. describe_instances w r = Inl e \<longrightarrow> ?i = [] \<and> ?v = [] \<and> ?s = [] \<and> ?g = []"
    by (simp add: inst_items_def vol_items_def snap_items_def sg_items_def)
  have v0: "\<forall>e. describe_volumes w r = Inl e \<longrightarrow> ?v = [] \<and> ?s = [] \<and> ?g = []"
    by (simp add: vol_items_def snap_items_def sg_items_def split: sum.splits)
  have s0: "\<forall>e. describe_snapshots w r = Inl e \<longrightarrow> ?s = [] \<and> ?g = []"
    by (simp add: snap_items_def sg_items_def split: sum.splits)
  have g0: "\<forall>e. describe_security_groups w r = Inl e \<longrightarrow> ?g = []"
    by (simp add: sg_items_def split: sum.splits)
  have b0: "\<forall>e. list_buckets w r = Inl e \<longrightarrow> ?b = []"
    by (simp add: bucket_items_def)
  have b1: "\<forall>bs. list_buckets w r = Inr bs \<longrightarrow>
      (\<forall>q \<in> set bs. \<exists>loc. get_bucket_location w r (Name q) = Inr loc) \<longrightarrow>
      ?b = map Name
          (filter (\<lambda>q. get_bucket_location w r (Name q) = Inr (Some r) \<or>
                       (get_bucket_location w r (Name q) = Inr None \<and> r = ''us-east-1''))
             bs)"
    using kept_buckets_answered [of _ w r]
    by (simp add: bucket_items_def)
  have b2: "\<forall>pre p post. list_buckets w r = Inr (pre @ p # post) \<longrightarrow>
      (\<forall>q \<in> set pre. \<exists>loc. get_bucket_location w r (Name q) = Inr loc) \<longrightarrow>
      get_bucket_location w r (Name p) = Inl ClientError \<longrightarrow>
      ?b =
        map Name
          (filter (\<lambda>q. get_bucket_location w r (Name q) = Inr (Some r) \<or>
                       (get_bucket_location w r (Name q) = Inr None \<and> r = ''us-east-1''))
             pre)"
    using kept_buckets_interrupted [of _ w r]
    by (simp add: bucket_items_def)
  have x: "\<forall>ds. describe_db_instances w r = Inr ds \<longrightarrow> ?x = map db_item ds"
    by (simp add: rds_items_def)
  have x0: "\<forall>e. describe_db_instances w r = Inl e \<longrightarrow> ?x = []"
    by (simp add: rds_items_def)
  show ?thesis
    apply (rule exI [of _ cs], rule exI [of _ m])
    apply (rule exI [of _ ?i], rule exI [of _ ?v], rule exI [of _ ?s])
    apply (rule exI [of _ ?g], rule exI [of _ ?b], rule exI [of _ ?x])
    apply (intro conjI)
                 apply (rule run)
                apply (rule l)
               apply (rule i)
              apply (rule v)
             apply (rule s)
            apply (rule g)
           apply (rule i0)
          apply (rule v0)
         apply (rule s0)
        apply (rule g0)
       apply (rule b0)
      apply (rule b1)
     apply (rule b2)
    apply (rule x)
    apply (rule x0)
    done
qed

text \<open>
  The account where the listing of snapshots fails and the location of \<open>assets\<close>
  cannot be read: the instances, the volumes and the bucket \<open>logs\<close> of \<open>us-east-1\<close>
  are retained, the snapshots are empty.
\<close>

theorem partial_results_retained_witness:
  "client_errors_only partial_failures \<and>
   snd (get_all_resources partial_failures) = Inr partial_inventory \<and>
   describe_volumes partial_failures ''us-east-1'' = Inr [\<lparr>VolumeId = ''vol-1''\<rparr>] \<and>
   describe_snapshots partial_failures ''us-east-1'' = Inl ClientError \<and>
   get_bucket_location partial_failures ''us-east-1'' ''logs'' = Inr None \<and>
   get_bucket_location partial_failures ''us-east-1'' ''assets'' = Inl ClientError \<and>
   items_at partial_inventory ''us-east-1'' ''Instances'' = Some [''i-1''] \<and>
   items_at partial_inventory ''us-east-1'' ''Volumes'' = Some (map VolumeId [\<lparr>VolumeId = ''vol-1''\<rparr>]) \<and>
   items_at partial_inventory ''us-east-1'' ''Snapshots'' = Some [] \<and>
   items_at partial_inventory ''us-east-1'' ''S3Buckets'' = Some [''logs'']"
proof -
  let ?w = partial_failures and ?us = "''us-east-1''"
  have handled: "client_errors_only ?w"
    by (simp add: client_errors_only_def handled_def partial_failures_def demo_account_def)
  have regions: "describe_regions ?w =
      Inr [\<lparr>RegionName = ''us-east-1''\<rparr>, \<lparr>RegionName = ''eu-west-1''\<rparr>]"
    by (simp add: partial_failures_def demo_account_def)
  have d: "?us \<in> RegionName ` set [\<lparr>RegionName = ''us-east-1''\<rparr>, \<lparr>RegionName = ''eu-west-1''\<rparr>]"
    "?us \<noteq> ''ALL''"
    by simp_all
  have ri: "describe_instances ?w ?us = Inr [\<lparr>Instances = [\<lparr>InstanceId = ''i-1''\<rparr>]\<rparr>]"
    and rv: "describe_volumes ?w ?us = Inr [\<lparr>VolumeId = ''vol-1''\<rparr>]"
    and rs: "describe_snapshots ?w ?us = Inl ClientError"
    and rl: "list_buckets ?w ?us =
      Inr ([\<lparr>Name = ''logs''\<rparr>] @ \<lparr>Name = ''assets''\<rparr> # [\<lparr>Name = ''backup''\<rparr>])"
    and la: "get_bucket_location ?w ?us ''assets'' = Inl ClientError"
    and ll: "get_bucket_location ?w ?us ''logs'' = Inr None"
    by (simp_all add: partial_failures_def demo_account_def)
  obtain cs m i v s g b x where
    run: "get_all_resources ?w = (cs, Inr m)"
    and l: "map_of m ?us =
          Some [(''Instances'', i), (''Volumes'', v), (''Snapshots'', s),
                (''SecurityGroups'', g), (''S3Buckets'', b), (''RDSInstances'', x)]"
    and pi: "\<forall>res. describe_instances ?w ?us = Inr res \<longrightarrow>
               i = concat (map (\<lambda>y. map InstanceId (Instances y)) res)"
    and pv: "\<forall>res vs. describe_instances ?w ?us = Inr res \<longrightarrow>
               describe_volumes ?w ?us = Inr vs \<longrightarrow> v = map VolumeId vs"
    and ps: "\<forall>e. describe_snapshots ?w ?us = Inl e \<longrightarrow> s = [] \<and> g = []"
    and pb: "\<forall>pre p post. list_buckets ?w ?us = Inr (pre @ p # post) \<longrightarrow>
               (\<forall>q \<in> set pre. \<exists>loc. get_bucket_location ?w ?us (Name q) = Inr loc) \<longrightarrow>
               get_bucket_location ?w ?us (Name p) = Inl ClientError \<longrightarrow>
               b = map Name
                     (filter (\<lambda>q. get_bucket_location ?w ?us (Name q) = Inr (Some ?us) \<or>
                                  (get_bucket_location ?w ?us (Name q) = Inr None \<and>
                                   ?us = ''us-east-1''))
                        pre)"
    using partial_results_retained [OF handled regions d]
    by (elim exE conjE) (rule that; assumption)
  have m: "m = partial_inventory"
    using run partial_failures_run by simp
  have "i = [''i-1'']"
    using pi ri by simp
  moreover have "v = map VolumeId [\<lparr>VolumeId = ''vol-1''\<rparr>]"
    using pv ri rv by blast
  moreover have "s = []"
    using ps rs by blast
  moreover have "b = [''logs'']"
    using pb [rule_format, OF rl] la ll by simp
  ultimately show ?thesis
    using handled partial_failures_run rv rs la ll l [unfolded m] by (simp add: items_at_def)
qed

text \<open>
  C9 as stated fails when the failing call raises another exception: the listing of
  instances of \<open>us-east-1\<close> answered, the listing of snapshots raises, and the run
  ends with that exception after four calls, returning no inventory.
\<close>

theorem uncaught_failure_aborts:
  "describe_instances snapshots_crash ''us-east-1'' =
     Inr [\<lparr>Instances = [\<lparr>InstanceId = ''i-1''\<rparr>]\<rparr>] \<and>
   describe_snapshots snapshots_crash ''us-east-1'' = Inl OtherError \<and>
   get_all_resources snapshots_crash =
     ([DescribeRegions, DescribeInstances ''us-east-1'', DescribeVolumes ''us-east-1'',
       DescribeSnapshots ''us-east-1'' [''self'']],
      Inl OtherError)"
  by code_simp

subsection \<open>C10: buckets of regions that are not discovered\<close>

text \<open>
  C10: in a run that returns, a bucket whose governing region, by every answer of its
  location lookup (\<open>us-east-1\<close> when the answer has no location), is not among the
  discovered regions is among the buckets of no region of the inventory.
\<close>

theorem foreign_bucket_nowhere:
  assumes run: "get_all_resources w = (cs, Inr m)"
    and regions: "describe_regions w = Inr rs"
    and foreign: "\<forall>r loc. get_bucket_location w r n = Inr loc \<longrightarrow>
                    governing_region loc \<notin> RegionName ` set rs"
    and entry: "items_at m r ''S3Buckets'' = Some ys"
  shows "n \<notin> set ys"
proof
  assume "n \<in> set ys"
  have r: "r \<in> RegionName ` set rs" and ys: "ys = bucket_items w r"
    using entry inventory_bucket_items [OF run regions, of r] by (simp_all split: if_splits)
  have "n \<in> set (kept_buckets w r (case list_buckets w r of Inr bs \<Rightarrow> bs | Inl e \<Rightarrow> []))"
    using \<open>n \<in> set ys\<close> ys by (simp add: bucket_items_def split: sum.splits)
  then obtain loc where "get_bucket_location w r n = Inr loc" "keeps r loc"
    using kept_buckets_keeps by blast
  then show False
    using foreign r by (auto simp: keeps_governing)
qed

text \<open>
  The account without \<open>us-east-1\<close>: the bucket \<open>logs\<close> has no location and is not
  among the buckets of \<open>eu-west-1\<close>.
\<close>

theorem foreign_bucket_nowhere_witness:
  "snd (get_all_resources only_europe) = Inr [(''eu-west-1'', demo_eu)] \<and>
   describe_regions only_europe = Inr [\<lparr>RegionName = ''eu-west-1''\<rparr>] \<and>
   get_bucket_location only_europe ''eu-west-1'' ''logs'' = Inr None \<and>
   governing_region None \<notin> RegionName ` set [\<lparr>RegionName = ''eu-west-1''\<rparr>] \<and>
   items_at [(''eu-west-1'', demo_eu)] ''eu-west-1'' ''S3Buckets'' = Some [''assets''] \<and>
   ''logs'' \<notin> set [''assets'']"
proof -
  have run: "get_all_resources only_europe =
      (fst (get_all_resources only_europe), Inr [(''eu-west-1'', demo_eu)])"
    using only_europe_run by (metis prod.collapse)
  have regions: "describe_regions only_europe = Inr [\<lparr>RegionName = ''eu-west-1''\<rparr>]"
    by (simp add: only_europe_def)
  have loc: "get_bucket_location only_europe r ''logs'' = Inr None" for r
    by (simp add: only_europe_def demo_account_def)
  have foreign: "\<forall>r loc. get_bucket_location only_europe r ''logs'' = Inr loc \<longrightarrow>
      governing_region loc \<notin> RegionName ` set [\<lparr>RegionName = ''eu-west-1''\<rparr>]"
    by (simp add: loc governing_region_def)
  have entry: "items_at [(''eu-west-1'', demo_eu)] ''eu-west-1'' ''S3Buckets'' = Some [''assets'']"
    by (simp add: items_at_def demo_eu_def)
  have "''logs'' \<notin> set [''assets'']"
    using foreign_bucket_nowhere [OF run regions foreign entry] .
  then show ?thesis
    using only_europe_run regions loc [of "''eu-west-1''"] entry
    by (simp add: governing_region_def)
qed

end
